theory Spec2Isabelle
  imports Complex_Main
begin

section \<open>Data model (src/app/page.tsx, lines 5-65)\<close>

text \<open>
  The program is a browser game written in TypeScript. Its numbers are modelled as
  follows: every field the program computes with fractions or square roots is a
  \<open>real\<close>; the counters that the program only initialises with integer constants and
  then increments (\<open>score\<close>, \<open>wave\<close>, \<open>waveProgress\<close>, \<open>enemiesThisWave\<close>,
  \<open>enemiesKilled\<close>) are \<open>int\<close>. The rounding of doubles is written out (\<open>fl\<close>, section
  Numbers) in the two computations whose result a statement below depends on to the
  last bit: the overlap tests of the collision passes and the score of a kill. The
  other operations (sums, differences and clamps of positions and stats) are taken
  exact.

  A field name that occurs in several interfaces keeps its name in \<open>Player\<close> and gets
  a prefix elsewhere (\<open>e_\<close> enemy, \<open>b_\<close> bullet, \<open>pt_\<close> particle, \<open>pu_\<close> power-up).
  The coordinates \<open>x\<close> and \<open>y\<close> of \<open>Vector2\<close> are written \<open>X\<close> and \<open>Y\<close>.
\<close>

record Vector2 =
  X :: real
  Y :: real

record Entity =
  pos :: Vector2
  vel :: Vector2
  radius :: real

record Player = Entity +
  health :: real
  maxHealth :: real
  fireRate :: real
  damage :: real
  speed :: real
  lastFired :: real
  invulnerable :: real

datatype EnemyType = Basic | Fast | Tank | Shooter

record Enemy = Entity +
  e_health :: real
  e_maxHealth :: real
  e_speed :: real
  e_type :: EnemyType
  e_lastFired :: "real option"
  e_color :: string

record Bullet = Entity +
  b_damage :: real
  isPlayerBullet :: bool

record Particle = Entity +
  life :: real
  maxLife :: real
  pt_color :: string

datatype PowerUpType = Health | Damage | FireRate | Speed

record PowerUp = Entity +
  pu_type :: PowerUpType
  pu_color :: string

record GameState =
  player :: Player
  enemies :: "Enemy list"
  bullets :: "Bullet list"
  particles :: "Particle list"
  powerUps :: "PowerUp list"
  score :: int
  wave :: int
  waveProgress :: int
  enemiesThisWave :: int
  enemiesKilled :: int
  gameOver :: bool
  paused :: bool
  keys :: "string set"

text \<open>
  The functions of the component close over more than the game state: the canvas
  (its size is read, never written, by the simulation), the variable \<open>lastTime\<close>,
  the generator behind \<open>Math.random()\<close> and the timer queue behind \<open>setTimeout\<close>.
  \<open>Sim\<close> is the object \<open>gameStateRef.current\<close> together with that environment:
  \<open>randoms\<close> is the sequence of results of \<open>Math.random()\<close>, \<open>draws\<close> the number of
  results consumed so far, and \<open>scheduled\<close> collects the calls of \<open>setTimeout\<close> made
  by \<open>spawnWave\<close>, each as its delay in milliseconds and the wave number its callback
  has captured.
\<close>

record Sim = GameState +
  canvas_width :: real
  canvas_height :: real
  lastTime :: real
  randoms :: "nat \<Rightarrow> real"
  draws :: nat
  scheduled :: "(real \<times> int) list"

section \<open>Numbers\<close>

text \<open>
  The numbers of the program are IEEE 754 doubles. \<open>fl\<close> is the rounding every
  arithmetic operation of the program ends with: the nearest double, ties to the even
  significand, with 53 bits of precision and the smallest exponent \<open>- 1022\<close> (below
  it the spacing stays \<open>2 powi - 1074\<close>). \<open>bits n\<close> is the number of binary digits of
  \<open>n\<close>, and \<open>exponent x\<close> the integer \<open>e\<close> with \<open>2 powi e \<le> \<bar>x\<bar> < 2 powi (e + 1)\<close>.
  Overflow to infinity (from \<open>2 ^ 1024\<close> on) and NaN are not modelled.
\<close>

fun bits :: "nat \<Rightarrow> nat" where
  "bits n = (if n = 0 then 0 else Suc (bits (n div 2)))"

declare bits.simps [simp del]

definition exponent :: "real \<Rightarrow> int" where
  "exponent x =
     (if 1 \<le> \<bar>x\<bar> then int (bits (nat \<lfloor>\<bar>x\<bar>\<rfloor>)) - 1
      else - int (bits (nat (\<lceil>1 / \<bar>x\<bar>\<rceil> - 1))))"

definition rne :: "real \<Rightarrow> int" where
  "rne q =
     (let f = \<lfloor>q\<rfloor>; r = q - of_int f
      in if r < 1 / 2 then f else if 1 / 2 < r then f + 1 else if even f then f else f + 1)"

definition fl :: "real \<Rightarrow> real" where
  "fl x =
     (if x = 0 then 0
      else let ulp = 2 powi (max (exponent x) (- 1022) - 52)
           in of_int (rne (x / ulp)) * ulp)"

section \<open>Helpers of the component\<close>

text \<open>\<open>initGame\<close> (lines 85-110).\<close>

definition initGame :: "real \<Rightarrow> real \<Rightarrow> GameState" where
  "initGame w h =
     \<lparr> player = \<lparr> pos = \<lparr> X = w / 2, Y = h - 100 \<rparr>, vel = \<lparr> X = 0, Y = 0 \<rparr>, radius = 15,
                  health = 100, maxHealth = 100, fireRate = 150, damage = 10, speed = 5,
                  lastFired = 0, invulnerable = 0 \<rparr>,
       enemies = [], bullets = [], particles = [], powerUps = [],
       score = 0, wave = 1, waveProgress = 0, enemiesThisWave = 5, enemiesKilled = 0,
       gameOver = False, paused = False, keys = {} \<rparr>"

text \<open>
  The overlap tests of the collision passes all compute \<open>dx\<close>, \<open>dy\<close> and
  \<open>Math.sqrt(dx * dx + dy * dy)\<close> from two positions; \<open>distance a b\<close> is that
  computation with \<open>dx = a.x - b.x\<close> and \<open>dy = a.y - b.y\<close>, each of its six operations
  rounded (the square root of a double is correctly rounded).
\<close>

definition distance :: "Vector2 \<Rightarrow> Vector2 \<Rightarrow> real" where
  "distance a b =
     (let dx = fl (X a - X b);
          dy = fl (Y a - Y b)
      in fl (sqrt (fl (fl (dx * dx) + fl (dy * dy)))))"

text \<open>\<open>Math.atan2(y, x)\<close> on finite arguments.\<close>

definition atan2 :: "real \<Rightarrow> real \<Rightarrow> real" where
  "atan2 y x =
     (if 0 < x then arctan (y / x)
      else if x < 0 \<and> 0 \<le> y then arctan (y / x) + pi
      else if x < 0 \<and> y < 0 then arctan (y / x) - pi
      else if 0 < y then pi / 2
      else if y < 0 then - (pi / 2)
      else 0)"

text \<open>
  \<open>spawnEnemy\<close> (lines 140-163). The table \<open>configs\<close> is the function \<open>config\<close>,
  giving health, speed, radius and colour; the one call of \<open>Math.random()\<close> places
  the enemy horizontally.
\<close>

fun config :: "EnemyType \<Rightarrow> int \<Rightarrow> real \<times> real \<times> real \<times> string" where
  "config Basic wv = (20 + real_of_int wv * 5, 2 + real_of_int wv * 0.1, 15, ''#ff4444'')"
| "config Fast wv = (10 + real_of_int wv * 3, 4 + real_of_int wv * 0.2, 10, ''#ff8844'')"
| "config Tank wv = (50 + real_of_int wv * 15, 1 + real_of_int wv * 0.05, 25, ''#ff2222'')"
| "config Shooter wv = (15 + real_of_int wv * 4, 1.5 + real_of_int wv * 0.1, 12, ''#ff44ff'')"

definition spawnEnemy :: "EnemyType \<Rightarrow> int \<Rightarrow> Sim \<Rightarrow> Sim" where
  "spawnEnemy type wv s =
     (case config type wv of (c_health, c_speed, c_radius, c_color) \<Rightarrow>
        let enemy = \<lparr> pos = \<lparr> X = randoms s (draws s) * canvas_width s, Y = - 30 \<rparr>,
                      vel = \<lparr> X = 0, Y = c_speed \<rparr>,
                      radius = c_radius,
                      e_health = c_health, e_maxHealth = c_health, e_speed = c_speed,
                      e_type = type, e_lastFired = Some 0, e_color = c_color \<rparr>
        in s\<lparr> enemies := enemies s @ [enemy], draws := Suc (draws s) \<rparr>)"

text \<open>
  \<open>spawnWave\<close> (lines 166-187) sets the quota, resets the progress and calls
  \<open>setTimeout\<close> once for each \<open>i\<close> from \<open>0\<close> to \<open>count - 1\<close>, with delay \<open>i * 500\<close>.
  The callbacks run later (\<open>spawnTimeout\<close> below).
\<close>

definition spawnWave :: "int \<Rightarrow> Sim \<Rightarrow> Sim" where
  "spawnWave wv s =
     (let count = 5 + wv * 2
      in s\<lparr> enemiesThisWave := count, waveProgress := 0,
             scheduled := scheduled s @ map (\<lambda>i. (real i * 500, wv)) [0..<nat count] \<rparr>)"

text \<open>
  \<open>createParticles\<close> (lines 190-204): \<open>emitParticle\<close> is one round of its loop, with
  two calls of \<open>Math.random()\<close>, first for the speed and then for the radius.
\<close>

definition emitParticle :: "Vector2 \<Rightarrow> string \<Rightarrow> nat \<Rightarrow> nat \<Rightarrow> Sim \<Rightarrow> Sim" where
  "emitParticle p color count i s =
     (let angle = (pi * 2 * real i) / real count;
          spd = 2 + randoms s (draws s) * 3;
          rad = 2 + randoms s (Suc (draws s)) * 3
      in s\<lparr> particles := particles s @
               [\<lparr> pos = p, vel = \<lparr> X = cos angle * spd, Y = sin angle * spd \<rparr>, radius = rad,
                  life = 1, maxLife = 1, pt_color = color \<rparr>],
             draws := Suc (Suc (draws s)) \<rparr>)"

definition createParticles :: "Vector2 \<Rightarrow> string \<Rightarrow> nat \<Rightarrow> Sim \<Rightarrow> Sim" where
  "createParticles p color count s = fold (emitParticle p color count) [0..<count] s"

text \<open>
  \<open>spawnPowerUp\<close> (lines 207-222): the first random number decides whether anything
  drops, the second one picks the kind. \<open>Math.random()\<close> returns a number in
  \<open>[0, 1)\<close>, so that the index \<open>Math.floor(Math.random() * 4)\<close> is one of 0 to 3.
\<close>

fun colors :: "PowerUpType \<Rightarrow> string" where
  "colors Health = ''#44ff44''"
| "colors Damage = ''#ff4444''"
| "colors FireRate = ''#4444ff''"
| "colors Speed = ''#ffff44''"

definition spawnPowerUp :: "Vector2 \<Rightarrow> Sim \<Rightarrow> Sim" where
  "spawnPowerUp p s =
     (let s1 = s\<lparr> draws := Suc (draws s) \<rparr>
      in if randoms s (draws s) < 0.3 then
           let types = [Health, Damage, FireRate, Speed];
               type = types ! nat \<lfloor>randoms s1 (draws s1) * real (length types)\<rfloor>;
               s2 = s1\<lparr> draws := Suc (draws s1) \<rparr>
           in s2\<lparr> powerUps := powerUps s2 @
                    [\<lparr> pos = p, vel = \<lparr> X = 0, Y = 2 \<rparr>, radius = 10,
                       pu_type = type, pu_color = colors type \<rparr>] \<rparr>
         else s1)"

section \<open>The game loop (lines 227-601)\<close>

text \<open>
  Every \<open>for\<close> loop of the game loop but the one of \<open>createParticles\<close> runs from the
  last index of an array down to 0 and removes, with \<open>splice(i, 1)\<close>, at most the
  element under the cursor, so the elements still to be visited keep their indices.
  Such a loop is a recursion over the list that handles the tail (the higher indices)
  first and the head last; it returns the elements that stay, in their order, with
  the state. In the source \<open>player\<close> is an alias of \<open>state.player\<close>.
\<close>

subsection \<open>Update player, shooting, invulnerability (lines 240-268)\<close>

definition updatePlayer :: "Sim \<Rightarrow> Sim" where
  "updatePlayer s =
     (let p = player s;
          vx0 = 0;
          vy0 = 0;
          vx1 = (if ''ArrowLeft'' \<in> keys s \<or> ''KeyA'' \<in> keys s then vx0 - speed p else vx0);
          vx2 = (if ''ArrowRight'' \<in> keys s \<or> ''KeyD'' \<in> keys s then vx1 + speed p else vx1);
          vy1 = (if ''ArrowUp'' \<in> keys s \<or> ''KeyW'' \<in> keys s then vy0 - speed p else vy0);
          vy2 = (if ''ArrowDown'' \<in> keys s \<or> ''KeyS'' \<in> keys s then vy1 + speed p else vy1);
          px = X (pos p) + vx2;
          py = Y (pos p) + vy2;
          px' = max (radius p) (min (canvas_width s - radius p) px);
          py' = max (radius p) (min (canvas_height s - radius p) py)
      in s\<lparr> player := p\<lparr> vel := \<lparr> X = vx2, Y = vy2 \<rparr>, pos := \<lparr> X = px', Y = py' \<rparr> \<rparr> \<rparr>)"

definition shooting :: "real \<Rightarrow> Sim \<Rightarrow> Sim" where
  "shooting currentTime s =
     (let p = player s
      in if ''Space'' \<in> keys s \<and> currentTime - lastFired p > fireRate p
         then s\<lparr> bullets := bullets s @
                    [\<lparr> pos = pos p, vel = \<lparr> X = 0, Y = - 10 \<rparr>, radius = 4,
                       b_damage = damage p, isPlayerBullet = True \<rparr>],
                  player := p\<lparr> lastFired := currentTime \<rparr> \<rparr>
         else s)"

definition tickInvulnerable :: "real \<Rightarrow> Sim \<Rightarrow> Sim" where
  "tickInvulnerable deltaTime s =
     (let p = player s
      in if invulnerable p > 0
         then s\<lparr> player := p\<lparr> invulnerable := invulnerable p - deltaTime \<rparr> \<rparr>
         else s)"

subsection \<open>Update enemies (lines 270-307)\<close>

definition steer :: "Player \<Rightarrow> Enemy \<Rightarrow> Enemy" where
  "steer p enemy =
     (let dx = X (pos p) - X (pos enemy);
          dy = Y (pos p) - Y (pos enemy);
          dist = sqrt (dx * dx + dy * dy);
          v = (if dist > 100
               then \<lparr> X = (dx / dist) * e_speed enemy * 0.3, Y = (dy / dist) * e_speed enemy \<rparr>
               else \<lparr> X = X (vel enemy) * 0.95, Y = e_speed enemy * 0.5 \<rparr>)
      in enemy\<lparr> vel := v, pos := \<lparr> X = X (pos enemy) + X v, Y = Y (pos enemy) + Y v \<rparr> \<rparr>)"

fun updateEnemiesLoop :: "real \<Rightarrow> Enemy list \<Rightarrow> Sim \<Rightarrow> Enemy list \<times> Sim" where
  "updateEnemiesLoop currentTime [] s = ([], s)"
| "updateEnemiesLoop currentTime (enemy # es) s =
     (case updateEnemiesLoop currentTime es s of (es', s1) \<Rightarrow>
        let p = player s1;
            e1 = steer p enemy;
            fires = (e_type e1 = Shooter \<and>
                     currentTime - (case e_lastFired e1 of None \<Rightarrow> 0 | Some l \<Rightarrow> l) > 1000);
            angle = atan2 (Y (pos p) - Y (pos e1)) (X (pos p) - X (pos e1));
            s2 = (if fires
                  then s1\<lparr> bullets := bullets s1 @
                             [\<lparr> pos = pos e1, vel = \<lparr> X = cos angle * 4, Y = sin angle * 4 \<rparr>,
                                radius = 5, b_damage = 5 + real_of_int (wave s1),
                                isPlayerBullet = False \<rparr>] \<rparr>
                  else s1);
            e2 = (if fires then e1\<lparr> e_lastFired := Some currentTime \<rparr> else e1)
        in if Y (pos e2) > canvas_height s2 + 50 then (es', s2) else (e2 # es', s2))"

definition updateEnemies :: "real \<Rightarrow> Sim \<Rightarrow> Sim" where
  "updateEnemies currentTime s =
     (case updateEnemiesLoop currentTime (enemies s) s of (es', s') \<Rightarrow> s'\<lparr> enemies := es' \<rparr>)"

subsection \<open>Update bullets, particles and power-ups (lines 309-347)\<close>

text \<open>
  These three loops change each element in place and remove it when it has left the
  playfield or has no life left; nothing else is read or written.
\<close>

definition moveBullet :: "Bullet \<Rightarrow> Bullet" where
  "moveBullet b = b\<lparr> pos := \<lparr> X = X (pos b) + X (vel b), Y = Y (pos b) + Y (vel b) \<rparr> \<rparr>"

definition updateBullets :: "Sim \<Rightarrow> Sim" where
  "updateBullets s =
     s\<lparr> bullets :=
          filter (\<lambda>b. \<not> (X (pos b) < 0 \<or> X (pos b) > canvas_width s \<or>
                         Y (pos b) < 0 \<or> Y (pos b) > canvas_height s))
            (map moveBullet (bullets s)) \<rparr>"

definition moveParticle :: "real \<Rightarrow> Particle \<Rightarrow> Particle" where
  "moveParticle deltaTime q =
     q\<lparr> pos := \<lparr> X = X (pos q) + X (vel q), Y = Y (pos q) + Y (vel q) \<rparr>,
        life := life q - deltaTime / 1000,
        vel := \<lparr> X = X (vel q) * 0.98, Y = Y (vel q) * 0.98 \<rparr> \<rparr>"

definition updateParticles :: "real \<Rightarrow> Sim \<Rightarrow> Sim" where
  "updateParticles deltaTime s =
     s\<lparr> particles := filter (\<lambda>q. \<not> life q \<le> 0) (map (moveParticle deltaTime) (particles s)) \<rparr>"

definition movePowerUp :: "PowerUp \<Rightarrow> PowerUp" where
  "movePowerUp u = u\<lparr> pos := (pos u)\<lparr> Y := Y (pos u) + Y (vel u) \<rparr> \<rparr>"

definition updatePowerUps :: "Sim \<Rightarrow> Sim" where
  "updatePowerUps s =
     s\<lparr> powerUps := filter (\<lambda>u. \<not> Y (pos u) > canvas_height s + 50)
                      (map movePowerUp (powerUps s)) \<rparr>"

subsection \<open>Collision: bullets vs enemies (lines 349-375)\<close>

text \<open>
  \<open>hitEnemy\<close> is the body of the overlap branch (lines 361-371) but for the two
  \<open>splice\<close> calls: it returns the enemy when it stays in the array. The score of a
  kill is \<open>Math.floor(10 * state.wave * (enemy.maxHealth / 20))\<close>: a product, a
  quotient and a second product, each rounded.
\<close>

definition hitEnemy :: "Bullet \<Rightarrow> Enemy \<Rightarrow> Sim \<Rightarrow> Enemy option \<times> Sim" where
  "hitEnemy bullet enemy s =
     (let e1 = enemy\<lparr> e_health := e_health enemy - b_damage bullet \<rparr>;
          s1 = createParticles (pos bullet) (e_color e1) 5 s
      in if e_health e1 \<le> 0 then
           let s2 = s1\<lparr> score := score s1 +
                          \<lfloor>fl (fl (10 * real_of_int (wave s1)) * fl (e_maxHealth e1 / 20))\<rfloor> \<rparr>;
               s3 = s2\<lparr> enemiesKilled := enemiesKilled s2 + 1 \<rparr>;
               s4 = createParticles (pos e1) (e_color e1) 15 s3;
               s5 = spawnPowerUp (pos e1) s4
           in (None, s5)
         else (Some e1, s1))"

text \<open>
  The inner loop over the enemies stops at the first overlap (\<open>break\<close>). \<open>None\<close>: no
  enemy overlaps the bullet; \<open>Some (es, s)\<close>: the enemies and the state after the hit.
\<close>

fun scanEnemies :: "Bullet \<Rightarrow> Enemy list \<Rightarrow> Sim \<Rightarrow> (Enemy list \<times> Sim) option" where
  "scanEnemies bullet [] s = None"
| "scanEnemies bullet (enemy # es) s =
     (case scanEnemies bullet es s of
        Some (es', s') \<Rightarrow> Some (enemy # es', s')
      | None \<Rightarrow>
          if distance (pos bullet) (pos enemy) < fl (radius bullet + radius enemy)
          then (case hitEnemy bullet enemy s of
                  (None, s') \<Rightarrow> Some (es, s')
                | (Some e', s') \<Rightarrow> Some (e' # es, s'))
          else None)"

fun bulletsVsEnemiesLoop :: "Bullet list \<Rightarrow> Sim \<Rightarrow> Bullet list \<times> Sim" where
  "bulletsVsEnemiesLoop [] s = ([], s)"
| "bulletsVsEnemiesLoop (bullet # bs) s =
     (case bulletsVsEnemiesLoop bs s of (bs', s1) \<Rightarrow>
        if \<not> isPlayerBullet bullet then (bullet # bs', s1)
        else (case scanEnemies bullet (enemies s1) s1 of
                None \<Rightarrow> (bullet # bs', s1)
              | Some (es', s2) \<Rightarrow> (bs', s2\<lparr> enemies := es' \<rparr>)))"

definition bulletsVsEnemies :: "Sim \<Rightarrow> Sim" where
  "bulletsVsEnemies s =
     (case bulletsVsEnemiesLoop (bullets s) s of (bs', s') \<Rightarrow> s'\<lparr> bullets := bs' \<rparr>)"

subsection \<open>Collision: enemy bullets vs player (lines 377-397)\<close>

definition bulletHit :: "Bullet \<Rightarrow> Sim \<Rightarrow> Sim" where
  "bulletHit bullet s =
     (let p1 = (player s)\<lparr> health := health (player s) - b_damage bullet \<rparr>;
          p2 = p1\<lparr> invulnerable := 500 \<rparr>;
          s1 = createParticles (pos bullet) ''#4444ff'' 8 (s\<lparr> player := p2 \<rparr>)
      in if health (player s1) \<le> 0
         then createParticles (pos (player s1)) ''#44ffff'' 30 (s1\<lparr> gameOver := True \<rparr>)
         else s1)"

fun bulletsVsPlayerLoop :: "Bullet list \<Rightarrow> Sim \<Rightarrow> Bullet list \<times> Sim" where
  "bulletsVsPlayerLoop [] s = ([], s)"
| "bulletsVsPlayerLoop (bullet # bs) s =
     (case bulletsVsPlayerLoop bs s of (bs', s1) \<Rightarrow>
        if isPlayerBullet bullet then (bullet # bs', s1)
        else if distance (pos bullet) (pos (player s1)) < fl (radius bullet + radius (player s1))
                \<and> invulnerable (player s1) \<le> 0
        then (bs', bulletHit bullet s1)
        else (bullet # bs', s1))"

definition bulletsVsPlayer :: "Sim \<Rightarrow> Sim" where
  "bulletsVsPlayer s =
     (case bulletsVsPlayerLoop (bullets s) s of (bs', s') \<Rightarrow> s'\<lparr> bullets := bs' \<rparr>)"

subsection \<open>Collision: player vs enemies (lines 399-417)\<close>

definition bodyHit :: "Enemy \<Rightarrow> Sim \<Rightarrow> Sim" where
  "bodyHit enemy s =
     (let p1 = (player s)\<lparr> health := health (player s) - (10 + real_of_int (wave s) * 2) \<rparr>;
          p2 = p1\<lparr> invulnerable := 1000 \<rparr>;
          s1 = createParticles (pos enemy) (e_color enemy) 10 (s\<lparr> player := p2 \<rparr>)
      in if health (player s1) \<le> 0
         then createParticles (pos (player s1)) ''#44ffff'' 30 (s1\<lparr> gameOver := True \<rparr>)
         else s1)"

fun playerVsEnemiesLoop :: "Enemy list \<Rightarrow> Sim \<Rightarrow> Enemy list \<times> Sim" where
  "playerVsEnemiesLoop [] s = ([], s)"
| "playerVsEnemiesLoop (enemy # es) s =
     (case playerVsEnemiesLoop es s of (es', s1) \<Rightarrow>
        if distance (pos (player s1)) (pos enemy) < fl (radius (player s1) + radius enemy)
           \<and> invulnerable (player s1) \<le> 0
        then (es', bodyHit enemy s1)
        else (enemy # es', s1))"

definition playerVsEnemies :: "Sim \<Rightarrow> Sim" where
  "playerVsEnemies s =
     (case playerVsEnemiesLoop (enemies s) s of (es', s') \<Rightarrow> s'\<lparr> enemies := es' \<rparr>)"

subsection \<open>Collision: player vs power-ups (lines 419-446)\<close>

text \<open>\<open>applyPowerUp\<close> is the \<open>switch\<close> statement (lines 429-442).\<close>

fun applyPowerUp :: "PowerUpType \<Rightarrow> Player \<Rightarrow> Player" where
  "applyPowerUp Health p = p\<lparr> health := min (maxHealth p) (health p + 20) \<rparr>"
| "applyPowerUp Damage p = p\<lparr> damage := damage p + 2 \<rparr>"
| "applyPowerUp FireRate p = p\<lparr> fireRate := max 50 (fireRate p - 15) \<rparr>"
| "applyPowerUp Speed p = p\<lparr> speed := min 8 (speed p + 0.3) \<rparr>"

definition pickUp :: "PowerUp \<Rightarrow> Sim \<Rightarrow> Sim" where
  "pickUp powerUp s =
     (let s1 = createParticles (pos powerUp) (pu_color powerUp) 8 s
      in s1\<lparr> player := applyPowerUp (pu_type powerUp) (player s1) \<rparr>)"

fun playerVsPowerUpsLoop :: "PowerUp list \<Rightarrow> Sim \<Rightarrow> PowerUp list \<times> Sim" where
  "playerVsPowerUpsLoop [] s = ([], s)"
| "playerVsPowerUpsLoop (powerUp # us) s =
     (case playerVsPowerUpsLoop us s of (us', s1) \<Rightarrow>
        if distance (pos (player s1)) (pos powerUp) < fl (radius (player s1) + radius powerUp)
        then (us', pickUp powerUp s1)
        else (powerUp # us', s1))"

definition playerVsPowerUps :: "Sim \<Rightarrow> Sim" where
  "playerVsPowerUps s =
     (case playerVsPowerUpsLoop (powerUps s) s of (us', s') \<Rightarrow> s'\<lparr> powerUps := us' \<rparr>)"

subsection \<open>Wave management (lines 448-452) and the frame\<close>

definition waveManagement :: "Sim \<Rightarrow> Sim" where
  "waveManagement s =
     (if waveProgress s \<ge> enemiesThisWave s \<and> length (enemies s) = 0
      then let s1 = s\<lparr> wave := wave s + 1 \<rparr> in spawnWave (wave s1) s1
      else s)"

text \<open>
  \<open>combat\<close> is the four collision passes in the order of the source; \<open>gameLoop\<close> is
  one call of the frame callback. Drawing (lines 454-598) reads the state only.
\<close>

definition combat :: "Sim \<Rightarrow> Sim" where
  "combat s = playerVsPowerUps (playerVsEnemies (bulletsVsPlayer (bulletsVsEnemies s)))"

definition movement :: "real \<Rightarrow> real \<Rightarrow> Sim \<Rightarrow> Sim" where
  "movement currentTime deltaTime s =
     updatePowerUps (updateParticles deltaTime (updateBullets (updateEnemies currentTime
       (tickInvulnerable deltaTime (shooting currentTime (updatePlayer s))))))"

definition gameLoop :: "real \<Rightarrow> Sim \<Rightarrow> Sim" where
  "gameLoop currentTime s =
     (let deltaTime = currentTime - lastTime s;
          s0 = s\<lparr> lastTime := currentTime \<rparr>
      in if paused s0 \<or> gameOver s0 then s0
         else waveManagement (combat (movement currentTime deltaTime s0)))"

section \<open>References, timers and key events\<close>

text \<open>
  \<open>gameStateRef.current\<close> is a reference: \<open>initGame\<close> makes a new object each time, the
  restart in \<open>handleKeyDown\<close> points the reference at a new object, and the callbacks
  that \<open>spawnWave\<close> hands to \<open>setTimeout\<close> keep the object that was current when
  \<open>spawnWave\<close> ran (\<open>state\<close>, line 167). \<open>World\<close> has the objects in \<open>heap\<close>, addressed by
  their index, the reference in \<open>current\<close>, and the callbacks not yet run in
  \<open>pending\<close>, each with the address it captured. The reference is set at mount and
  never cleared, so \<open>current\<close> is an index of \<open>heap\<close> throughout.
\<close>

record Timeout =
  delay :: real
  captured :: nat
  t_wave :: int

record World =
  heap :: "GameState list"
  current :: nat
  w_canvas_width :: real
  w_canvas_height :: real
  w_lastTime :: real
  w_randoms :: "nat \<Rightarrow> real"
  w_draws :: nat
  pending :: "Timeout list"

text \<open>
  \<open>enter\<close> reads \<open>gameStateRef.current\<close> and the environment for a function of the
  previous sections; \<open>leave\<close> writes its result back: the object in place, and the
  new \<open>setTimeout\<close> calls with the current address as the captured one.
\<close>

definition enter :: "World \<Rightarrow> Sim" where
  "enter w =
     GameState.extend (heap w ! current w)
       (Sim.fields (w_canvas_width w) (w_canvas_height w) (w_lastTime w)
          (w_randoms w) (w_draws w) [])"

definition leave :: "Sim \<Rightarrow> World \<Rightarrow> World" where
  "leave s w =
     w\<lparr> heap := (heap w)[current w := GameState.truncate s],
        w_lastTime := lastTime s,
        w_draws := draws s,
        pending := pending w @
          map (\<lambda>(d, n). \<lparr> delay = d, captured = current w, t_wave = n \<rparr>) (scheduled s) \<rparr>"

text \<open>The mount effect (lines 112 and 604): a fresh state, then \<open>spawnWave(1)\<close>.\<close>

definition mount :: "real \<Rightarrow> real \<Rightarrow> real \<Rightarrow> (nat \<Rightarrow> real) \<Rightarrow> World" where
  "mount width height now rnd =
     (let w0 = \<lparr> heap = [initGame width height], current = 0,
                 w_canvas_width = width, w_canvas_height = height, w_lastTime = now,
                 w_randoms = rnd, w_draws = 0, pending = [] \<rparr>
      in leave (spawnWave 1 (enter w0)) w0)"

text \<open>One call of the frame callback on the current object.\<close>

definition frame :: "real \<Rightarrow> World \<Rightarrow> World" where
  "frame currentTime w = leave (gameLoop currentTime (enter w)) w"

text \<open>
  The callback of \<open>spawnWave\<close> (lines 173-185). The guard and \<open>spawnEnemy\<close> go through
  \<open>gameStateRef.current\<close>; the increment of \<open>waveProgress\<close> goes through the captured
  \<open>state\<close>.
\<close>

definition spawnTimeout :: "Timeout \<Rightarrow> World \<Rightarrow> World" where
  "spawnTimeout tm w =
     (if gameOver (heap w ! current w) then w
      else
        let s = enter w;
            rand = randoms s (draws s);
            s1 = s\<lparr> draws := Suc (draws s) \<rparr>;
            type = (if t_wave tm \<ge> 3 \<and> rand < 0.3 then Shooter
                    else if t_wave tm \<ge> 2 \<and> rand < 0.5 then Fast
                    else if t_wave tm \<ge> 4 \<and> rand < 0.6 then Tank
                    else Basic);
            w1 = leave (spawnEnemy type (t_wave tm) s1) w;
            st = heap w1 ! captured tm
        in w1\<lparr> heap := (heap w1)[captured tm := st\<lparr> waveProgress := waveProgress st + 1 \<rparr>] \<rparr>)"

text \<open>The timer service runs the pending callback number \<open>k\<close> and forgets it.\<close>

definition fire :: "nat \<Rightarrow> World \<Rightarrow> World" where
  "fire k w =
     (if k < length (pending w)
      then spawnTimeout (pending w ! k)
             (w\<lparr> pending := take k (pending w) @ drop (Suc k) (pending w) \<rparr>)
      else w)"

text \<open>\<open>handleKeyDown\<close> (lines 115-129) and \<open>handleKeyUp\<close> (lines 131-134).\<close>

definition handleKeyDown :: "string \<Rightarrow> World \<Rightarrow> World" where
  "handleKeyDown code w =
     (let g = heap w ! current w
      in if code = ''Space'' \<and> gameOver g
         then w\<lparr> heap := heap w @ [initGame (w_canvas_width w) (w_canvas_height w)],
                  current := length (heap w) \<rparr>
         else if code = ''KeyP''
         then w\<lparr> heap := (heap w)[current w := g\<lparr> paused := \<not> paused g \<rparr>] \<rparr>
         else w\<lparr> heap := (heap w)[current w := g\<lparr> keys := insert code (keys g) \<rparr>] \<rparr>)"

definition handleKeyUp :: "string \<Rightarrow> World \<Rightarrow> World" where
  "handleKeyUp code w =
     (let g = heap w ! current w
      in w\<lparr> heap := (heap w)[current w := g\<lparr> keys := keys g - {code} \<rparr>] \<rparr>)"

section \<open>Example states\<close>

text \<open>
  Concrete inputs for the scenarios below: a playfield of 800 by 600 with the
  initial state (the player at \<open>(400, 500)\<close>, radius 15, health 100), every
  \<open>Math.random()\<close> returning one half.
\<close>

definition sim0 :: Sim where
  "sim0 = GameState.extend (initGame 800 600) (Sim.fields 800 600 0 (\<lambda>n. 1 / 2) 0 [])"

definition bulletAt :: "real \<Rightarrow> real \<Rightarrow> real \<Rightarrow> bool \<Rightarrow> Bullet" where
  "bulletAt px py dmg mine =
     \<lparr> pos = \<lparr> X = px, Y = py \<rparr>, vel = \<lparr> X = 0, Y = 0 \<rparr>, radius = 5,
       b_damage = dmg, isPlayerBullet = mine \<rparr>"

definition enemyAt :: "real \<Rightarrow> real \<Rightarrow> real \<Rightarrow> real \<Rightarrow> Enemy" where
  "enemyAt px py hp mhp =
     \<lparr> pos = \<lparr> X = px, Y = py \<rparr>, vel = \<lparr> X = 0, Y = 0 \<rparr>, radius = 15,
       e_health = hp, e_maxHealth = mhp, e_speed = 2, e_type = Basic,
       e_lastFired = Some 0, e_color = ''#ff4444'' \<rparr>"

definition powerUpAt :: "real \<Rightarrow> real \<Rightarrow> PowerUpType \<Rightarrow> PowerUp" where
  "powerUpAt px py k =
     \<lparr> pos = \<lparr> X = px, Y = py \<rparr>, vel = \<lparr> X = 0, Y = 2 \<rparr>, radius = 10,
       pu_type = k, pu_color = colors k \<rparr>"

text \<open>
  \<open>lowHealth\<close>: the player is down to 5 health. \<open>fatalFrame\<close>: moreover an enemy
  bullet of damage 6 lies on the player and a health power-up arrives on the player
  in this frame.
\<close>

definition lowHealth :: Sim where
  "lowHealth = sim0\<lparr> player := (player sim0)\<lparr> health := 5 \<rparr> \<rparr>"

definition fatalFrame :: Sim where
  "fatalFrame =
     lowHealth\<lparr> bullets := [bulletAt 400 500 6 False],
                powerUps := [powerUpAt 400 498 Health] \<rparr>"

text \<open>
  \<open>endedRun\<close>: a run that has ended on wave 2 while the last two of the nine spawn
  callbacks of its wave are still pending. Seven body contacts on wave 1 (12 each)
  and two on wave 2 (14 each) have taken health from 100 to \<open>- 12\<close>; the last one
  has set the flag and the countdown of 1000.
\<close>

definition endedRun :: World where
  "endedRun =
     \<lparr> heap = [(initGame 800 600)
                 \<lparr> player := (player (initGame 800 600))\<lparr> health := - 12, invulnerable := 1000 \<rparr>,
                   wave := 2, waveProgress := 7, enemiesThisWave := 9, gameOver := True \<rparr>],
       current = 0,
       w_canvas_width = 800, w_canvas_height = 600, w_lastTime = 3400,
       w_randoms = (\<lambda>n. 1 / 2), w_draws = 0,
       pending = [\<lparr> delay = 3500, captured = 0, t_wave = 2 \<rparr>,
                  \<lparr> delay = 4000, captured = 0, t_wave = 2 \<rparr>] \<rparr>"

text \<open>
  \<open>shooter18\<close>: a shooter as \<open>spawnEnemy\<close> makes it on wave 18 (health and maxHealth
  \<open>15 + 18 * 4 = 87\<close>), with the health that is left. \<open>wave18\<close>: the initial state
  on wave 18.
\<close>

definition shooter18 :: "real \<Rightarrow> real \<Rightarrow> real \<Rightarrow> Enemy" where
  "shooter18 px py hp =
     \<lparr> pos = \<lparr> X = px, Y = py \<rparr>, vel = \<lparr> X = 0, Y = 33 / 10 \<rparr>, radius = 12,
       e_health = hp, e_maxHealth = 87, e_speed = 33 / 10, e_type = Shooter,
       e_lastFired = Some 0, e_color = ''#ff44ff'' \<rparr>"

definition wave18 :: Sim where
  "wave18 = sim0\<lparr> wave := 18, enemiesThisWave := 41 \<rparr>"



text \<open>
  \<open>narrowCanvas\<close>: the initial state on a canvas 20 wide, as after a resize of the
  window (line 611).
\<close>

definition narrowCanvas :: Sim where
  "narrowCanvas = sim0\<lparr> canvas_width := 20 \<rparr>"

section \<open>Basic facts\<close>

text \<open>
  Rounding: the exponent is the one the bounds determine, \<open>fl\<close> is the rounded
  multiple of the spacing at that exponent, and an integer below \<open>2 ^ 53\<close> is a
  double.
\<close>

lemma bits_bounds: "0 < n \<Longrightarrow> 2 ^ (bits n - 1) \<le> n \<and> n < 2 ^ bits n"
proof (induction n rule: bits.induct)
  case (1 n)
  show ?case
  proof (cases "n div 2 = 0")
    case True
    then have "n = 1" using 1(2) by linarith
    then show ?thesis by (simp add: bits.simps)
  next
    case False
    then have ih: "2 ^ (bits (n div 2) - 1) \<le> n div 2 \<and> n div 2 < 2 ^ bits (n div 2)"
      using 1 by simp
    have b: "bits n = Suc (bits (n div 2))" using 1(2) by (simp add: bits.simps[of n])
    have p: "0 < bits (n div 2)" using False by (simp add: bits.simps[of "n div 2"])
    then obtain k where k: "bits (n div 2) = Suc k" by (cases "bits (n div 2)") auto
    show ?thesis using ih b k by simp linarith
  qed
qed

lemma bits_unique:
  assumes "2 ^ k \<le> n" and "n < 2 ^ Suc k"
  shows "bits n = Suc k"
proof -
  have "(0::nat) < 2 ^ k" by simp
  then have n: "0 < n" using assms(1) by linarith
  from bits_bounds[OF n] have b: "2 ^ (bits n - 1) \<le> n" "n < 2 ^ bits n" by simp_all
  have "2 ^ k < (2::nat) ^ bits n" using assms(1) b(2) by linarith
  then have 1: "k < bits n" by (simp add: power_strict_increasing_iff)
  have "2 ^ (bits n - 1) < (2::nat) ^ Suc k" using assms(2) b(1) by linarith
  then have 2: "bits n - 1 < Suc k" by (simp only: power_strict_increasing_iff one_less_numeral_iff semiring_norm)
  show ?thesis using 1 2 by linarith
qed


lemma exponent_unique:
  assumes lo: "2 powi e \<le> \<bar>x\<bar>" and hi: "\<bar>x\<bar> < 2 powi (e + 1)"
  shows "exponent x = e"
proof (cases "0 \<le> e")
  case True
  define k where "k = nat e"
  have e: "e = int k" using True by (simp add: k_def)
  have e1: "e + 1 = int (Suc k)" using e by simp
  have lo': "(2::real) ^ k \<le> \<bar>x\<bar>" using lo by (simp only: e power_int_of_nat)
  have hi': "\<bar>x\<bar> < (2::real) ^ Suc k" using hi by (simp only: e1 power_int_of_nat)
  have "(1::real) \<le> 2 ^ k" by simp
  then have one: "1 \<le> \<bar>x\<bar>" using lo' by linarith
  have f0: "0 \<le> \<lfloor>\<bar>x\<bar>\<rfloor>" by simp
  have "(2::int) ^ k \<le> \<lfloor>\<bar>x\<bar>\<rfloor>" using lo' by (simp add: le_floor_iff)
  then have 1: "(2::nat) ^ k \<le> nat \<lfloor>\<bar>x\<bar>\<rfloor>"
    using f0 by (simp add: le_nat_iff)
  have "\<lfloor>\<bar>x\<bar>\<rfloor> < (2::int) ^ Suc k" using hi' by (simp add: floor_less_iff)
  then have 2: "nat \<lfloor>\<bar>x\<bar>\<rfloor> < (2::nat) ^ Suc k"
    using f0 by (simp add: nat_less_iff)
  have "bits (nat \<lfloor>\<bar>x\<bar>\<rfloor>) = Suc k" by (rule bits_unique[OF 1 2])
  then show ?thesis using one by (simp add: exponent_def e)
next
  case False
  define k where "k = nat (- e) - 1"
  have e: "e = - int (Suc k)" using False by (simp add: k_def)
  have p1: "(2::real) powi e = 1 / 2 ^ Suc k"
    by (simp only: e power_int_minus power_int_of_nat inverse_eq_divide)
  have "e + 1 = - int k" using e by simp
  then have p2: "(2::real) powi (e + 1) = 1 / 2 ^ k"
    by (simp only: power_int_minus power_int_of_nat inverse_eq_divide)
  have lo': "1 / (2::real) ^ Suc k \<le> \<bar>x\<bar>" using lo by (simp only: p1)
  have hi': "\<bar>x\<bar> < 1 / (2::real) ^ k" using hi by (simp only: p2)
  have "0 < 1 / (2::real) ^ Suc k" by simp
  then have pos: "0 < \<bar>x\<bar>" using lo' by linarith
  have "(1::real) \<le> 2 ^ k" by simp
  then have "1 / (2::real) ^ k \<le> 1" by (simp add: field_simps)
  then have small: "\<bar>x\<bar> < 1" using hi' by linarith
  have a: "1 / \<bar>x\<bar> \<le> 2 ^ Suc k"
  proof -
    have "1 \<le> \<bar>x\<bar> * 2 ^ Suc k" using lo' by (simp add: field_simps)
    then show ?thesis using pos by (simp add: field_simps)
  qed
  have b: "2 ^ k < 1 / \<bar>x\<bar>"
  proof -
    have "\<bar>x\<bar> * 2 ^ k < 1" using hi' by (simp add: field_simps)
    then show ?thesis using pos by (simp add: field_simps)
  qed
  have c1: "\<lceil>1 / \<bar>x\<bar>\<rceil> \<le> (2::int) ^ Suc k" using a by (simp add: ceiling_le_iff)
  have c2: "(2::int) ^ k < \<lceil>1 / \<bar>x\<bar>\<rceil>" using b by (simp add: less_ceiling_iff)
  have c0: "0 \<le> \<lceil>1 / \<bar>x\<bar>\<rceil> - 1"
  proof -
    have "(0::int) < 2 ^ k" by simp
    then show ?thesis using c2 by linarith
  qed
  have "(2::int) ^ k \<le> \<lceil>1 / \<bar>x\<bar>\<rceil> - 1" using c2 by linarith
  then have 1: "(2::nat) ^ k \<le> nat (\<lceil>1 / \<bar>x\<bar>\<rceil> - 1)"
    using c0 by (simp add: le_nat_iff)
  have "\<lceil>1 / \<bar>x\<bar>\<rceil> - 1 < (2::int) ^ Suc k" using c1 by linarith
  then have 2: "nat (\<lceil>1 / \<bar>x\<bar>\<rceil> - 1) < (2::nat) ^ Suc k"
    using c0 by (simp add: nat_less_iff)
  have "bits (nat (\<lceil>1 / \<bar>x\<bar>\<rceil> - 1)) = Suc k" by (rule bits_unique[OF 1 2])
  then show ?thesis using small by (simp add: exponent_def e)
qed

lemma rne_of_int [simp]: "rne (of_int m) = m"
  by (simp add: rne_def)

lemma fl_0 [simp]: "fl 0 = 0"
  by (simp add: fl_def)

lemma fl_eq:
  assumes "2 powi e \<le> \<bar>x\<bar>" and "\<bar>x\<bar> < 2 powi (e + 1)" and "- 1022 \<le> e"
  shows "fl x = of_int (rne (x / 2 powi (e - 52))) * 2 powi (e - 52)"
proof -
  have p: "(0::real) < 2 powi e" by (rule zero_less_power_int) simp
  have "x \<noteq> 0"
  proof
    assume "x = 0"
    then have "(2::real) powi e \<le> 0" using assms(1) by simp
    then show False using p by linarith
  qed
  then show ?thesis
    using exponent_unique[OF assms(1,2)] assms(3) by (simp add: fl_def Let_def max_def)
qed


lemma fl_of_int:
  assumes "\<bar>m\<bar> < 2 ^ 53"
  shows "fl (of_int m) = of_int m"
proof (cases "m = 0")
  case True
  then show ?thesis by simp
next
  case False
  define n where "n = nat \<bar>m\<bar>"
  have n: "0 < n" "int n = \<bar>m\<bar>" using False by (simp_all add: n_def)
  define k where "k = bits n - 1"
  from bits_bounds[OF n(1)] have b: "2 ^ k \<le> n" "n < 2 ^ bits n" by (simp_all add: k_def)
  have bp: "0 < bits n" using n(1) by (simp add: bits.simps[of n])
  then have bk: "bits n = Suc k" by (simp add: k_def)
  have "int n < 2 ^ 53" using assms n(2) by simp
  then have "n < 2 ^ 53" by (metis of_nat_less_iff of_nat_numeral of_nat_power)
  then have "(2::nat) ^ k < 2 ^ 53" using b(1) by linarith
  then have k53: "k < 53" by (simp only: power_strict_increasing_iff one_less_numeral_iff semiring_norm)
  have ax: "\<bar>real_of_int m\<bar> = real n" using n(2) by (metis of_int_abs of_int_of_nat_eq)
  have lo: "2 powi int k \<le> \<bar>real_of_int m\<bar>"
  proof -
    have "real (2 ^ k) \<le> real n" using b(1) by (simp only: of_nat_le_iff)
    then show ?thesis by (simp add: ax)
  qed
  have hi: "\<bar>real_of_int m\<bar> < 2 powi (int k + 1)"
  proof -
    have "real n < real (2 ^ Suc k)" using b(2) bk by (simp only: of_nat_less_iff)
    moreover have "(2::real) powi (int k + 1) = 2 ^ Suc k"
      by (metis of_nat_Suc power_int_of_nat add.commute)
    ultimately show ?thesis by (simp add: ax)
  qed
  have u: "(2::real) powi (int k - 52) = 1 / 2 ^ (52 - k)"
  proof -
    have "int k - 52 = - int (52 - k)" using k53 by simp
    then show ?thesis by (simp only: power_int_minus power_int_of_nat inverse_eq_divide)
  qed
  have q: "real_of_int m / (2 powi (int k - 52)) = of_int (m * 2 ^ (52 - k))"
    by (simp add: u)
  have "fl (of_int m) = of_int (rne (of_int m / 2 powi (int k - 52))) * 2 powi (int k - 52)"
    by (rule fl_eq[OF lo hi]) simp
  then show ?thesis
    by (simp only: q rne_of_int) (simp add: u)
qed

lemma fl_numeral [simp]: "numeral w < (2::int) ^ 53 \<Longrightarrow> fl (numeral w) = numeral w"
  using fl_of_int[of "numeral w"] by simp

lemma fl_1 [simp]: "fl 1 = 1"
  using fl_of_int[of 1] by simp

lemma fl_neg_numeral [simp]: "numeral w < (2::int) ^ 53 \<Longrightarrow> fl (- numeral w) = - numeral w"
  using fl_of_int[of "- numeral w"] by simp

text \<open>The square roots of the example distances.\<close>

lemma sqrt_squares:
  "sqrt 100 = 10" "sqrt 400 = 20" "sqrt 625 = 25" "sqrt 841 = 29" "sqrt 900 = 30"
  by (rule real_sqrt_unique; simp)+

text \<open>\<open>createParticles\<close> and \<open>spawnPowerUp\<close> write particles, power-ups and the
  random counter only.\<close>

lemma fold_emitParticle:
  "\<exists>ps. fold (emitParticle p c n) xs s =
        s\<lparr> particles := particles s @ ps, draws := draws s + 2 * length xs \<rparr>"
proof (induction xs arbitrary: s)
  case Nil
  have "s = s\<lparr> particles := particles s @ [], draws := draws s + 2 * length ([]::nat list) \<rparr>"
    by simp
  then show ?case by (metis fold_simps(1))
next
  case (Cons i xs)
  obtain ps where ps: "fold (emitParticle p c n) xs (emitParticle p c n i s) =
      (emitParticle p c n i s)\<lparr> particles := particles (emitParticle p c n i s) @ ps,
         draws := draws (emitParticle p c n i s) + 2 * length xs \<rparr>"
    using Cons.IH by blast
  show ?case
    unfolding fold_simps ps
    by (rule exI[of _ "_ # ps"]) (simp add: emitParticle_def Let_def)
qed

lemma createParticles_shape:
  "\<exists>ps. createParticles p c n s =
        s\<lparr> particles := particles s @ ps, draws := draws s + 2 * n \<rparr>"
  using fold_emitParticle[of p c n "[0..<n]" s] by (simp add: createParticles_def)

lemma createParticles_fields [simp]:
  "player (createParticles p c n s) = player s"
  "enemies (createParticles p c n s) = enemies s"
  "bullets (createParticles p c n s) = bullets s"
  "powerUps (createParticles p c n s) = powerUps s"
  "score (createParticles p c n s) = score s"
  "wave (createParticles p c n s) = wave s"
  "waveProgress (createParticles p c n s) = waveProgress s"
  "enemiesThisWave (createParticles p c n s) = enemiesThisWave s"
  "enemiesKilled (createParticles p c n s) = enemiesKilled s"
  "gameOver (createParticles p c n s) = gameOver s"
  "paused (createParticles p c n s) = paused s"
  "keys (createParticles p c n s) = keys s"
  "canvas_width (createParticles p c n s) = canvas_width s"
  "canvas_height (createParticles p c n s) = canvas_height s"
  "lastTime (createParticles p c n s) = lastTime s"
  "randoms (createParticles p c n s) = randoms s"
  "scheduled (createParticles p c n s) = scheduled s"
  "draws (createParticles p c n s) = draws s + 2 * n"
  using createParticles_shape[of p c n s] by auto

lemma spawnPowerUp_fields [simp]:
  "player (spawnPowerUp p s) = player s"
  "enemies (spawnPowerUp p s) = enemies s"
  "bullets (spawnPowerUp p s) = bullets s"
  "particles (spawnPowerUp p s) = particles s"
  "score (spawnPowerUp p s) = score s"
  "wave (spawnPowerUp p s) = wave s"
  "waveProgress (spawnPowerUp p s) = waveProgress s"
  "enemiesThisWave (spawnPowerUp p s) = enemiesThisWave s"
  "enemiesKilled (spawnPowerUp p s) = enemiesKilled s"
  "gameOver (spawnPowerUp p s) = gameOver s"
  "paused (spawnPowerUp p s) = paused s"
  "keys (spawnPowerUp p s) = keys s"
  "canvas_width (spawnPowerUp p s) = canvas_width s"
  "canvas_height (spawnPowerUp p s) = canvas_height s"
  "lastTime (spawnPowerUp p s) = lastTime s"
  "randoms (spawnPowerUp p s) = randoms s"
  "scheduled (spawnPowerUp p s) = scheduled s"
  by (simp_all add: spawnPowerUp_def Let_def)

text \<open>What a hit writes into the player and the flag.\<close>

lemma bulletHit_player:
  "player (bulletHit b s) =
     (player s)\<lparr> health := health (player s) - b_damage b, invulnerable := 500 \<rparr>"
  by (simp add: bulletHit_def Let_def)

lemma bodyHit_player:
  "player (bodyHit e s) =
     (player s)\<lparr> health := health (player s) - (10 + real_of_int (wave s) * 2),
                  invulnerable := 1000 \<rparr>"
  by (simp add: bodyHit_def Let_def)

lemma bulletHit_gameOver:
  "gameOver (bulletHit b s) = (gameOver s \<or> health (player s) - b_damage b \<le> 0)"
  by (simp add: bulletHit_def Let_def)

lemma bodyHit_gameOver:
  "gameOver (bodyHit e s) =
     (gameOver s \<or> health (player s) - (10 + real_of_int (wave s) * 2) \<le> 0)"
  by (simp add: bodyHit_def Let_def)

text \<open>While the countdown is positive both damage passes are the identity.\<close>

lemma bulletsVsPlayerLoop_blocked:
  "0 < invulnerable (player s) \<Longrightarrow> bulletsVsPlayerLoop bs s = (bs, s)"
  by (induction bs) simp_all

lemma playerVsEnemiesLoop_blocked:
  "0 < invulnerable (player s) \<Longrightarrow> playerVsEnemiesLoop es s = (es, s)"
  by (induction es) simp_all

lemma distance_same [simp]: "distance a a = 0"
  by (simp add: distance_def)

lemma sim0_fields [simp]:
  "player sim0 = \<lparr> pos = \<lparr> X = 400, Y = 500 \<rparr>, vel = \<lparr> X = 0, Y = 0 \<rparr>, radius = 15,
                  health = 100, maxHealth = 100, fireRate = 150, damage = 10, speed = 5,
                  lastFired = 0, invulnerable = 0 \<rparr>"
  "enemies sim0 = []" "bullets sim0 = []" "particles sim0 = []" "powerUps sim0 = []"
  "score sim0 = 0" "wave sim0 = 1" "waveProgress sim0 = 0" "enemiesThisWave sim0 = 5"
  "enemiesKilled sim0 = 0" "gameOver sim0 = False" "paused sim0 = False" "keys sim0 = {}"
  "canvas_width sim0 = 800" "canvas_height sim0 = 600" "lastTime sim0 = 0"
  "randoms sim0 = (\<lambda>n. 1 / 2)" "draws sim0 = 0" "scheduled sim0 = []"
  by (simp_all add: sim0_def initGame_def GameState.defs Sim.defs)

section \<open>Invulnerability (C4)\<close>



section \<open>Frame conditions of the passes\<close>

text \<open>
  The two damage loops split at any point of the array: the higher indices run
  first, the lower ones continue from the state reached.
\<close>

lemma bulletsVsPlayerLoop_append:
  "bulletsVsPlayerLoop (bs1 @ bs2) s =
     (case bulletsVsPlayerLoop bs2 s of (bs2', s2) \<Rightarrow>
        case bulletsVsPlayerLoop bs1 s2 of (bs1', s1) \<Rightarrow> (bs1' @ bs2', s1))"
  by (induction bs1) (simp_all split: prod.splits)

lemma playerVsEnemiesLoop_append:
  "playerVsEnemiesLoop (es1 @ es2) s =
     (case playerVsEnemiesLoop es2 s of (es2', s2) \<Rightarrow>
        case playerVsEnemiesLoop es1 s2 of (es1', s1) \<Rightarrow> (es1' @ es2', s1))"
  by (induction es1) (simp_all split: prod.splits)

lemma bulletsVsPlayerLoop_window:
  "(gameOver s \<longrightarrow> 0 < invulnerable (player s)) \<Longrightarrow>
   bulletsVsPlayerLoop bs s = (bs', s') \<Longrightarrow>
   gameOver s' \<longrightarrow> 0 < invulnerable (player s')"
proof (induction bs arbitrary: bs' s')
  case Nil
  then show ?case by simp
next
  case (Cons b bs)
  obtain bs1 s1 where l: "bulletsVsPlayerLoop bs s = (bs1, s1)" by force
  have w: "gameOver s1 \<longrightarrow> 0 < invulnerable (player s1)"
    using Cons.IH[OF Cons.prems(1) l] .
  show ?case
    using Cons.prems(2) w l by (auto split: if_splits simp: bulletHit_player)
qed

lemma playerVsEnemiesLoop_window:
  "(gameOver s \<longrightarrow> 0 < invulnerable (player s)) \<Longrightarrow>
   playerVsEnemiesLoop es s = (es', s') \<Longrightarrow>
   gameOver s' \<longrightarrow> 0 < invulnerable (player s')"
proof (induction es arbitrary: es' s')
  case Nil
  then show ?case by simp
next
  case (Cons e es)
  obtain es1 s1 where l: "playerVsEnemiesLoop es s = (es1, s1)" by force
  have w: "gameOver s1 \<longrightarrow> 0 < invulnerable (player s1)"
    using Cons.IH[OF Cons.prems(1) l] .
  show ?case
    using Cons.prems(2) w l by (auto split: if_splits simp: bodyHit_player)
qed

lemma gameLoop_over: "gameOver s \<Longrightarrow> gameLoop t s = s\<lparr> lastTime := t \<rparr>"
  by (simp add: gameLoop_def Let_def)



lemma updateEnemiesLoop_shape:
  "\<exists>bs. snd (updateEnemiesLoop t es s) = s\<lparr> bullets := bs \<rparr>"
proof (induction es)
  case Nil
  have "s = s\<lparr> bullets := bullets s \<rparr>" by simp
  then show ?case by (metis snd_conv updateEnemiesLoop.simps(1))
next
  case (Cons e es)
  obtain es1 s1 where l: "updateEnemiesLoop t es s = (es1, s1)" by force
  obtain bs where b: "s1 = s\<lparr> bullets := bs \<rparr>" using Cons.IH l by auto
  have "snd (updateEnemiesLoop t (e # es) s) = s1 \<or>
        (\<exists>x. snd (updateEnemiesLoop t (e # es) s) = s1\<lparr> bullets := bullets s1 @ [x] \<rparr>)"
    by (simp add: l Let_def) blast
  then show ?case
  proof
    assume "snd (updateEnemiesLoop t (e # es) s) = s1"
    then show ?thesis using b by metis
  next
    assume "\<exists>x. snd (updateEnemiesLoop t (e # es) s) = s1\<lparr> bullets := bullets s1 @ [x] \<rparr>"
    then obtain x where "snd (updateEnemiesLoop t (e # es) s) = s1\<lparr> bullets := bullets s1 @ [x] \<rparr>"
      by blast
    then have "snd (updateEnemiesLoop t (e # es) s) = s\<lparr> bullets := bs @ [x] \<rparr>"
      by (simp add: b)
    then show ?thesis by metis
  qed
qed


lemma updateEnemies_shape: "\<exists>es bs. updateEnemies t s = s\<lparr> enemies := es, bullets := bs \<rparr>"
proof -
  obtain es' s' where l: "updateEnemiesLoop t (enemies s) s = (es', s')" by force
  obtain bs where "s' = s\<lparr> bullets := bs \<rparr>"
    using updateEnemiesLoop_shape[of t "enemies s" s] l by auto
  then have "updateEnemies t s = s\<lparr> enemies := es', bullets := bs \<rparr>"
    by (simp add: updateEnemies_def l)
  then show ?thesis by blast
qed

lemma updateEnemies_fields [simp]:
  "player (updateEnemies t s) = player s"
  "particles (updateEnemies t s) = particles s"
  "powerUps (updateEnemies t s) = powerUps s"
  "score (updateEnemies t s) = score s"
  "wave (updateEnemies t s) = wave s"
  "waveProgress (updateEnemies t s) = waveProgress s"
  "enemiesThisWave (updateEnemies t s) = enemiesThisWave s"
  "enemiesKilled (updateEnemies t s) = enemiesKilled s"
  "gameOver (updateEnemies t s) = gameOver s"
  "paused (updateEnemies t s) = paused s"
  "keys (updateEnemies t s) = keys s"
  "canvas_width (updateEnemies t s) = canvas_width s"
  "canvas_height (updateEnemies t s) = canvas_height s"
  "lastTime (updateEnemies t s) = lastTime s"
  "randoms (updateEnemies t s) = randoms s"
  "draws (updateEnemies t s) = draws s"
  "scheduled (updateEnemies t s) = scheduled s"
  using updateEnemies_shape[of t s] by auto

lemma updatePlayer_shape:
  "\<exists>v q. updatePlayer s = s\<lparr> player := (player s)\<lparr> vel := v, pos := q \<rparr> \<rparr>"
  unfolding updatePlayer_def Let_def by blast

lemma shooting_shape:
  "\<exists>bs l. shooting t s = s\<lparr> bullets := bs, player := (player s)\<lparr> lastFired := l \<rparr> \<rparr>"
proof (cases "''Space'' \<in> keys s \<and> t - lastFired (player s) > fireRate (player s)")
  case True
  then have "shooting t s = s\<lparr> bullets := bullets s @
                    [\<lparr> pos = pos (player s), vel = \<lparr> X = 0, Y = - 10 \<rparr>, radius = 4,
                       b_damage = damage (player s), isPlayerBullet = True \<rparr>],
                  player := (player s)\<lparr> lastFired := t \<rparr> \<rparr>"
    by (simp add: shooting_def Let_def)
  then show ?thesis by blast
next
  case False
  then have "shooting t s = s"
    by (auto simp add: shooting_def Let_def)
  then have "shooting t s = s\<lparr> bullets := bullets s, player := (player s)\<lparr> lastFired := lastFired (player s) \<rparr> \<rparr>"
    by simp
  then show ?thesis by blast
qed

lemma tickInvulnerable_shape:
  "\<exists>i. tickInvulnerable dt s = s\<lparr> player := (player s)\<lparr> invulnerable := i \<rparr> \<rparr>"
proof (cases "invulnerable (player s) > 0")
  case True
  then have "tickInvulnerable dt s = s\<lparr> player := (player s)\<lparr> invulnerable := invulnerable (player s) - dt \<rparr> \<rparr>"
    by (simp add: tickInvulnerable_def Let_def)
  then show ?thesis by blast
next
  case False
  then have "tickInvulnerable dt s = s\<lparr> player := (player s)\<lparr> invulnerable := invulnerable (player s) \<rparr> \<rparr>"
    by (simp add: tickInvulnerable_def Let_def)
  then show ?thesis by blast
qed

lemma movement_shape:
  "\<exists>v q l i es bs ps us.
     movement t dt s =
       s\<lparr> player := (player s)\<lparr> vel := v, pos := q, lastFired := l, invulnerable := i \<rparr>,
          enemies := es, bullets := bs, particles := ps, powerUps := us \<rparr>"
proof -
  obtain v q where 1: "updatePlayer s = s\<lparr> player := (player s)\<lparr> vel := v, pos := q \<rparr> \<rparr>"
    using updatePlayer_shape by blast
  obtain bs l where 2: "shooting t (updatePlayer s) =
      (updatePlayer s)\<lparr> bullets := bs, player := (player (updatePlayer s))\<lparr> lastFired := l \<rparr> \<rparr>"
    using shooting_shape by blast
  let ?s2 = "shooting t (updatePlayer s)"
  obtain i where 3: "tickInvulnerable dt ?s2 = ?s2\<lparr> player := (player ?s2)\<lparr> invulnerable := i \<rparr> \<rparr>"
    using tickInvulnerable_shape by blast
  let ?s3 = "tickInvulnerable dt ?s2"
  obtain es bs' where 4: "updateEnemies t ?s3 = ?s3\<lparr> enemies := es, bullets := bs' \<rparr>"
    using updateEnemies_shape by blast
  have "movement t dt s =
       s\<lparr> player := (player s)\<lparr> vel := v, pos := q, lastFired := l, invulnerable := i \<rparr>,
          enemies := es,
          bullets := bullets (updateBullets (updateEnemies t ?s3)),
          particles := particles (updateParticles dt (updateBullets (updateEnemies t ?s3))),
          powerUps := powerUps (movement t dt s) \<rparr>"
    unfolding movement_def updatePowerUps_def updateParticles_def updateBullets_def 4
    unfolding 3 unfolding 2 unfolding 1
    by simp
  then show ?thesis by blast
qed

text \<open>
  An invariant of the state that every hit keeps is kept by the loop and by the pass.
\<close>

lemma scanEnemies_inv:
  assumes hit: "\<And>b e s. P s \<Longrightarrow> P (snd (hitEnemy b e s))"
  shows "P s \<Longrightarrow> scanEnemies b es s = Some (es', s') \<Longrightarrow> P s'"
proof (induction es arbitrary: es' s')
  case Nil
  then show ?case by simp
next
  case (Cons e es)
  show ?case
  proof (cases "scanEnemies b es s")
    case None
    with Cons.prems(2) have "s' = snd (hitEnemy b e s)"
      by (auto split: if_splits prod.splits option.splits)
    then show ?thesis using hit Cons.prems(1) by simp
  next
    case (Some r)
    obtain es1 s1 where r: "r = (es1, s1)" by force
    with Some Cons.prems(2) have "s' = s1" by simp
    then show ?thesis using Cons.IH[OF Cons.prems(1)] Some r by simp
  qed
qed

lemma bulletsVsEnemiesLoop_inv:
  assumes hit: "\<And>b e s. P s \<Longrightarrow> P (snd (hitEnemy b e s))"
    and upd: "\<And>s es. P s \<Longrightarrow> P (s\<lparr> enemies := es \<rparr>)"
  shows "P s \<Longrightarrow> P (snd (bulletsVsEnemiesLoop bs s))"
proof (induction bs)
  case Nil
  then show ?case by simp
next
  case (Cons b bs)
  obtain bs1 s1 where l: "bulletsVsEnemiesLoop bs s = (bs1, s1)" by force
  have p1: "P s1" using Cons.IH[OF Cons.prems] l by simp
  show ?case
  proof (cases "isPlayerBullet b")
    case False
    then show ?thesis using p1 l by simp
  next
    case True
    show ?thesis
    proof (cases "scanEnemies b (enemies s1) s1")
      case None
      then show ?thesis using p1 l True by simp
    next
      case (Some r)
      obtain es2 s2 where r: "r = (es2, s2)" by force
      have "P s2" using scanEnemies_inv[of P, OF hit p1] Some r by blast
      then show ?thesis using l True Some r upd by simp
    qed
  qed
qed

lemma bulletsVsEnemies_inv:
  assumes hit: "\<And>b e s. P s \<Longrightarrow> P (snd (hitEnemy b e s))"
    and upd: "\<And>s es. P s \<Longrightarrow> P (s\<lparr> enemies := es \<rparr>)"
    and updb: "\<And>s bs. P s \<Longrightarrow> P (s\<lparr> bullets := bs \<rparr>)"
    and p: "P s"
  shows "P (bulletsVsEnemies s)"
proof -
  obtain bs' s' where l: "bulletsVsEnemiesLoop (bullets s) s = (bs', s')" by force
  have "P (snd (bulletsVsEnemiesLoop (bullets s) s))"
    by (rule bulletsVsEnemiesLoop_inv[of P, OF hit upd p])
  then have "P s'" by (simp add: l)
  then show ?thesis by (simp add: bulletsVsEnemies_def l updb)
qed

lemma bulletsVsPlayerLoop_inv:
  assumes hit: "\<And>b s. P s \<Longrightarrow> P (bulletHit b s)"
  shows "P s \<Longrightarrow> P (snd (bulletsVsPlayerLoop bs s))"
  by (induction bs) (auto split: prod.splits intro: hit)

lemma playerVsEnemiesLoop_inv:
  assumes hit: "\<And>e s. P s \<Longrightarrow> P (bodyHit e s)"
  shows "P s \<Longrightarrow> P (snd (playerVsEnemiesLoop es s))"
  by (induction es) (auto split: prod.splits intro: hit)

lemma playerVsPowerUpsLoop_inv:
  assumes hit: "\<And>u s. P s \<Longrightarrow> P (pickUp u s)"
  shows "P s \<Longrightarrow> P (snd (playerVsPowerUpsLoop us s))"
  by (induction us) (auto split: prod.splits intro: hit)


lemma bulletsVsPlayer_inv:
  assumes hit: "\<And>b s. P s \<Longrightarrow> P (bulletHit b s)"
    and updb: "\<And>s bs. P s \<Longrightarrow> P (s\<lparr> bullets := bs \<rparr>)"
    and p: "P s"
  shows "P (bulletsVsPlayer s)"
proof -
  obtain bs' s' where l: "bulletsVsPlayerLoop (bullets s) s = (bs', s')" by force
  have "P (snd (bulletsVsPlayerLoop (bullets s) s))"
    by (rule bulletsVsPlayerLoop_inv[of P, OF hit p])
  then have "P s'" by (simp add: l)
  then show ?thesis by (simp add: bulletsVsPlayer_def l updb)
qed

lemma playerVsEnemies_inv:
  assumes hit: "\<And>e s. P s \<Longrightarrow> P (bodyHit e s)"
    and upd: "\<And>s es. P s \<Longrightarrow> P (s\<lparr> enemies := es \<rparr>)"
    and p: "P s"
  shows "P (playerVsEnemies s)"
proof -
  obtain es' s' where l: "playerVsEnemiesLoop (enemies s) s = (es', s')" by force
  have "P (snd (playerVsEnemiesLoop (enemies s) s))"
    by (rule playerVsEnemiesLoop_inv[of P, OF hit p])
  then have "P s'" by (simp add: l)
  then show ?thesis by (simp add: playerVsEnemies_def l upd)
qed

lemma playerVsPowerUps_inv:
  assumes hit: "\<And>u s. P s \<Longrightarrow> P (pickUp u s)"
    and upd: "\<And>s us. P s \<Longrightarrow> P (s\<lparr> powerUps := us \<rparr>)"
    and p: "P s"
  shows "P (playerVsPowerUps s)"
proof -
  obtain us' s' where l: "playerVsPowerUpsLoop (powerUps s) s = (us', s')" by force
  have "P (snd (playerVsPowerUpsLoop (powerUps s) s))"
    by (rule playerVsPowerUpsLoop_inv[of P, OF hit p])
  then have "P s'" by (simp add: l)
  then show ?thesis by (simp add: playerVsPowerUps_def l upd)
qed

text \<open>The counters of the wave director are written by wave management only.\<close>

lemma hitEnemy_wave:
  "wave (snd (hitEnemy b e s)) = wave s" 
  "waveProgress (snd (hitEnemy b e s)) = waveProgress s"
  "enemiesThisWave (snd (hitEnemy b e s)) = enemiesThisWave s"
  "scheduled (snd (hitEnemy b e s)) = scheduled s"
  "player (snd (hitEnemy b e s)) = player s"
  "gameOver (snd (hitEnemy b e s)) = gameOver s"
  by (simp_all add: hitEnemy_def Let_def)

lemma bulletHit_wave:
  "wave (bulletHit b s) = wave s" 
  "waveProgress (bulletHit b s) = waveProgress s"
  "enemiesThisWave (bulletHit b s) = enemiesThisWave s"
  "scheduled (bulletHit b s) = scheduled s"
  by (simp_all add: bulletHit_def Let_def)

lemma bodyHit_wave:
  "wave (bodyHit e s) = wave s" 
  "waveProgress (bodyHit e s) = waveProgress s"
  "enemiesThisWave (bodyHit e s) = enemiesThisWave s"
  "scheduled (bodyHit e s) = scheduled s"
  by (simp_all add: bodyHit_def Let_def)

lemma pickUp_wave:
  "wave (pickUp u s) = wave s" 
  "waveProgress (pickUp u s) = waveProgress s"
  "enemiesThisWave (pickUp u s) = enemiesThisWave s"
  "scheduled (pickUp u s) = scheduled s"
  "gameOver (pickUp u s) = gameOver s"
  by (simp_all add: pickUp_def Let_def)

lemma combat_wave:
  "wave (combat s) = wave s \<and> waveProgress (combat s) = waveProgress s \<and>
   enemiesThisWave (combat s) = enemiesThisWave s \<and> scheduled (combat s) = scheduled s"
proof -
  let ?P = "\<lambda>s'. wave s' = wave s \<and> waveProgress s' = waveProgress s \<and>
   enemiesThisWave s' = enemiesThisWave s \<and> scheduled s' = scheduled s"
  have 1: "?P (bulletsVsEnemies s)"
    by (rule bulletsVsEnemies_inv[of ?P]) (simp_all add: hitEnemy_wave)
  have 2: "?P (bulletsVsPlayer (bulletsVsEnemies s))"
    by (rule bulletsVsPlayer_inv[of ?P, OF _ _ 1]) (simp_all add: bulletHit_wave)
  have 3: "?P (playerVsEnemies (bulletsVsPlayer (bulletsVsEnemies s)))"
    by (rule playerVsEnemies_inv[of ?P, OF _ _ 2]) (simp_all add: bodyHit_wave)
  have 4: "?P (playerVsPowerUps (playerVsEnemies (bulletsVsPlayer (bulletsVsEnemies s))))"
    by (rule playerVsPowerUps_inv[of ?P, OF _ _ 3]) (simp_all add: pickUp_wave)
  then show ?thesis by (simp add: combat_def)
qed

lemma movement_wave:
  "wave (movement t dt s) = wave s \<and> waveProgress (movement t dt s) = waveProgress s \<and>
   enemiesThisWave (movement t dt s) = enemiesThisWave s \<and>
   scheduled (movement t dt s) = scheduled s \<and>
   gameOver (movement t dt s) = gameOver s \<and>
   health (player (movement t dt s)) = health (player s) \<and>
   maxHealth (player (movement t dt s)) = maxHealth (player s)"
  using movement_shape[of t dt s] by auto

lemma fatalFrame_movement:
  "movement 16 16 (fatalFrame\<lparr> lastTime := 16 \<rparr>) =
     fatalFrame\<lparr> lastTime := 16, powerUps := [powerUpAt 400 500 Health] \<rparr>"
  by (simp add: movement_def updatePowerUps_def updateParticles_def updateBullets_def
      updateEnemies_def tickInvulnerable_def shooting_def updatePlayer_def Let_def
      fatalFrame_def lowHealth_def bulletAt_def powerUpAt_def moveBullet_def movePowerUp_def)

lemma fatalFrame_bulletsVsEnemies:
  "bulletsVsEnemies (fatalFrame\<lparr> lastTime := t, powerUps := us \<rparr>) =
     fatalFrame\<lparr> lastTime := t, powerUps := us \<rparr>"
  by (simp add: bulletsVsEnemies_def fatalFrame_def lowHealth_def bulletAt_def)

lemma fatalFrame_bulletsVsPlayer:
  "bulletsVsPlayer (fatalFrame\<lparr> lastTime := t, powerUps := us \<rparr>) =
     bulletHit (bulletAt 400 500 6 False) (fatalFrame\<lparr> lastTime := t, powerUps := us \<rparr>)
       \<lparr> bullets := [] \<rparr>"
  by (simp add: bulletsVsPlayer_def fatalFrame_def lowHealth_def bulletAt_def)

lemma pickUp_player: "player (pickUp u s) = applyPowerUp (pu_type u) (player s)"
  by (simp add: pickUp_def Let_def)

lemma waveManagement_idle:
  "waveProgress s < enemiesThisWave s \<or> enemies s \<noteq> [] \<Longrightarrow> waveManagement s = s"
  by (auto simp add: waveManagement_def)

lemma combat_gameOver: "gameOver s \<Longrightarrow> gameOver (combat s)"
proof -
  assume g: "gameOver s"
  have 1: "gameOver (bulletsVsEnemies s)"
    by (rule bulletsVsEnemies_inv[of gameOver, OF _ _ _ g]) (simp_all add: hitEnemy_wave)
  have 2: "gameOver (bulletsVsPlayer (bulletsVsEnemies s))"
    by (rule bulletsVsPlayer_inv[of gameOver, OF _ _ 1]) (simp_all add: bulletHit_gameOver)
  have 3: "gameOver (playerVsEnemies (bulletsVsPlayer (bulletsVsEnemies s)))"
    by (rule playerVsEnemies_inv[of gameOver, OF _ _ 2]) (simp_all add: bodyHit_gameOver)
  have 4: "gameOver (playerVsPowerUps (playerVsEnemies (bulletsVsPlayer (bulletsVsEnemies s))))"
    by (rule playerVsPowerUps_inv[of gameOver, OF _ _ 3]) (simp_all add: pickUp_wave)
  then show ?thesis by (simp add: combat_def)
qed

section \<open>Game over and health (C1)\<close>

text \<open>
  C1, as stated, fails in the frame that sets the flag. In \<open>fatalFrame\<close> the enemy
  bullet takes the player from 5 to \<open>- 1\<close> health and sets \<open>gameOver\<close>; the
  player-vs-power-up pass of the same frame then picks the health power-up up and
  stores health 19, with the flag still set.
\<close>

theorem health_after_game_over_counterexample:
  "\<not> paused fatalFrame \<and> \<not> gameOver fatalFrame
   \<and> gameOver (playerVsEnemies (bulletsVsPlayer (bulletsVsEnemies
        (movement 16 16 (fatalFrame\<lparr> lastTime := 16 \<rparr>)))))
   \<and> health (player (playerVsEnemies (bulletsVsPlayer (bulletsVsEnemies
        (movement 16 16 (fatalFrame\<lparr> lastTime := 16 \<rparr>)))))) = - 1
   \<and> health (player (playerVsPowerUps (playerVsEnemies (bulletsVsPlayer (bulletsVsEnemies
        (movement 16 16 (fatalFrame\<lparr> lastTime := 16 \<rparr>))))))) = 19
   \<and> gameLoop 16 fatalFrame =
        playerVsPowerUps (playerVsEnemies (bulletsVsPlayer (bulletsVsEnemies
          (movement 16 16 (fatalFrame\<lparr> lastTime := 16 \<rparr>)))))
   \<and> gameOver (gameLoop 16 fatalFrame)
   \<and> health (player (gameLoop 16 fatalFrame)) = 19"
proof -
  let ?b = "bulletAt 400 500 6 False"
  let ?m = "fatalFrame\<lparr> lastTime := 16, powerUps := [powerUpAt 400 500 Health] \<rparr>"
  let ?d = "(bulletHit ?b ?m)\<lparr> bullets := [] \<rparr>"
  have start: "\<not> paused fatalFrame" "\<not> gameOver fatalFrame" "lastTime fatalFrame = 0"
    by (simp_all add: fatalFrame_def lowHealth_def)
  have m: "movement 16 16 (fatalFrame\<lparr> lastTime := 16 \<rparr>) = ?m" by (rule fatalFrame_movement)
  have d: "bulletsVsPlayer (bulletsVsEnemies ?m) = ?d"
    by (simp only: fatalFrame_bulletsVsEnemies fatalFrame_bulletsVsPlayer)
  have dp: "player ?d = (player sim0)\<lparr> health := - 1, invulnerable := 500 \<rparr>"
    by (simp add: bulletHit_player fatalFrame_def lowHealth_def bulletAt_def)
  have dg: "gameOver ?d" by (simp add: bulletHit_gameOver fatalFrame_def lowHealth_def bulletAt_def)
  have de: "enemies ?d = []" by (simp add: bulletHit_def Let_def fatalFrame_def lowHealth_def)
  have du: "powerUps ?d = [powerUpAt 400 500 Health]" by (simp add: bulletHit_def Let_def)
  have dw: "waveProgress ?d = 0" "enemiesThisWave ?d = 5"
    by (simp_all add: bulletHit_wave fatalFrame_def lowHealth_def)
  have e: "playerVsEnemies ?d = ?d" by (simp add: playerVsEnemies_def de)
  let ?u = "playerVsPowerUps ?d"
  have u: "?u = (pickUp (powerUpAt 400 500 Health) ?d)\<lparr> powerUps := [] \<rparr>"
    by (simp add: playerVsPowerUps_def du dp) (simp add: powerUpAt_def)
  have uh: "health (player ?u) = 19"
    by (simp add: u pickUp_player dp) (simp add: powerUpAt_def)
  have ug: "gameOver ?u" by (simp add: u pickUp_wave dg)
  have uw: "waveProgress ?u < enemiesThisWave ?u" by (simp add: u pickUp_wave dw)
  have c: "combat ?m = ?u" by (simp only: combat_def d e)
  have "gameLoop 16 fatalFrame =
          waveManagement (combat (movement 16 16 (fatalFrame\<lparr> lastTime := 16 \<rparr>)))"
    by (simp add: gameLoop_def Let_def start)
  also have "\<dots> = ?u"
    unfolding m c using uw by (intro waveManagement_idle disjI1)
  finally have g: "gameLoop 16 fatalFrame = ?u" .
  have dh: "health (player ?d) = - 1" by (simp add: dp)
  show ?thesis
    unfolding g m d e using start(1,2) dg dh uh ug by simp
qed

text \<open>
  C1, amended. Once \<open>gameOver\<close> is set, every later frame returns at its guard and
  changes nothing but \<open>lastTime\<close>; movement never writes health. In the frame that
  sets the flag (it starts with the flag unset), the hit that sets it also opens the
  invulnerability window, so all remaining checks of the enemy-bullet pass and the
  whole body-contact pass leave the state, and with it health, as it was. The flag is
  never cleared by a hit or by the combat passes, and setting it twice is the same as
  setting it once. The player-vs-power-up pass of that frame is not covered.
\<close>

theorem game_over_freezes_damage:
  "(gameOver s \<longrightarrow> gameLoop t s = s\<lparr> lastTime := t \<rparr>)
   \<and> health (player (movement t dt s)) = health (player s)
   \<and> (\<not> gameOver s \<and> bulletsVsPlayerLoop bs2 s = (bs2', s2) \<and> gameOver s2 \<longrightarrow>
        bulletsVsPlayerLoop (bs1 @ bs2) s = (bs1 @ bs2', s2) \<and>
        playerVsEnemiesLoop es s2 = (es, s2))
   \<and> (\<not> gameOver s \<and> playerVsEnemiesLoop es2 s = (es2', s3) \<and> gameOver s3 \<longrightarrow>
        playerVsEnemiesLoop (es1 @ es2) s = (es1 @ es2', s3))
   \<and> (\<not> gameOver s \<and> gameOver (bulletsVsPlayer s) \<longrightarrow>
        playerVsEnemies (bulletsVsPlayer s) = bulletsVsPlayer s)
   \<and> (gameOver s \<longrightarrow> gameOver (bulletHit b s) \<and> gameOver (bodyHit e s) \<and> gameOver (combat s))
   \<and> s\<lparr> gameOver := True \<rparr>\<lparr> gameOver := True \<rparr> = s\<lparr> gameOver := True \<rparr>"
proof (intro conjI impI)
  show "gameLoop t s = s\<lparr> lastTime := t \<rparr>" if "gameOver s"
    using that by (rule gameLoop_over)
  show "health (player (movement t dt s)) = health (player s)"
    using movement_wave by blast
next
  assume a: "\<not> gameOver s \<and> bulletsVsPlayerLoop bs2 s = (bs2', s2) \<and> gameOver s2"
  then have "0 < invulnerable (player s2)"
    using bulletsVsPlayerLoop_window[of s bs2 bs2' s2] by simp
  then show "bulletsVsPlayerLoop (bs1 @ bs2) s = (bs1 @ bs2', s2)"
    and "playerVsEnemiesLoop es s2 = (es, s2)"
    using a by (simp_all add: bulletsVsPlayerLoop_append bulletsVsPlayerLoop_blocked
        playerVsEnemiesLoop_blocked)
next
  assume a: "\<not> gameOver s \<and> playerVsEnemiesLoop es2 s = (es2', s3) \<and> gameOver s3"
  then have "0 < invulnerable (player s3)"
    using playerVsEnemiesLoop_window[of s es2 es2' s3] by simp
  then show "playerVsEnemiesLoop (es1 @ es2) s = (es1 @ es2', s3)"
    using a by (simp add: playerVsEnemiesLoop_append playerVsEnemiesLoop_blocked)
next
  assume a: "\<not> gameOver s \<and> gameOver (bulletsVsPlayer s)"
  obtain bs' s' where l: "bulletsVsPlayerLoop (bullets s) s = (bs', s')" by force
  have "gameOver s'" using a by (simp add: bulletsVsPlayer_def l)
  then have "0 < invulnerable (player s')"
    using bulletsVsPlayerLoop_window[of s "bullets s" bs' s'] a l by simp
  then have "0 < invulnerable (player (bulletsVsPlayer s))"
    by (simp add: bulletsVsPlayer_def l)
  then show "playerVsEnemies (bulletsVsPlayer s) = bulletsVsPlayer s"
    by (simp add: playerVsEnemies_def playerVsEnemiesLoop_blocked)
next
  assume g: "gameOver s"
  show "gameOver (bulletHit b s)" using g by (simp add: bulletHit_gameOver)
  show "gameOver (bodyHit e s)" using g by (simp add: bodyHit_gameOver)
  show "gameOver (combat s)" using g by (rule combat_gameOver)
next
  show "s\<lparr> gameOver := True \<rparr>\<lparr> gameOver := True \<rparr> = s\<lparr> gameOver := True \<rparr>" by simp
qed


theorem game_over_freezes_damage_witness:
  "gameOver (sim0\<lparr> gameOver := True \<rparr>)
   \<and> gameLoop 16 (sim0\<lparr> gameOver := True \<rparr>) = sim0\<lparr> gameOver := True, lastTime := 16 \<rparr>
   \<and> \<not> gameOver lowHealth
   \<and> bulletsVsPlayerLoop [bulletAt 400 500 6 False] lowHealth
       = ([], bulletHit (bulletAt 400 500 6 False) lowHealth)
   \<and> gameOver (bulletHit (bulletAt 400 500 6 False) lowHealth)
   \<and> bulletsVsPlayerLoop [bulletAt 400 500 6 False, bulletAt 400 500 6 False] lowHealth
       = ([bulletAt 400 500 6 False], bulletHit (bulletAt 400 500 6 False) lowHealth)
   \<and> playerVsEnemiesLoop [enemyAt 400 500 20 20] (bulletHit (bulletAt 400 500 6 False) lowHealth)
       = ([enemyAt 400 500 20 20], bulletHit (bulletAt 400 500 6 False) lowHealth)
   \<and> playerVsEnemiesLoop [enemyAt 400 500 20 20] lowHealth
       = ([], bodyHit (enemyAt 400 500 20 20) lowHealth)
   \<and> gameOver (bodyHit (enemyAt 400 500 20 20) lowHealth)
   \<and> playerVsEnemiesLoop [enemyAt 400 500 20 20, enemyAt 400 500 20 20] lowHealth
       = ([enemyAt 400 500 20 20], bodyHit (enemyAt 400 500 20 20) lowHealth)
   \<and> gameOver (bulletsVsPlayer
        (lowHealth\<lparr> enemies := [enemyAt 400 500 20 20], bullets := [bulletAt 400 500 6 False] \<rparr>))
   \<and> playerVsEnemies (bulletsVsPlayer
        (lowHealth\<lparr> enemies := [enemyAt 400 500 20 20], bullets := [bulletAt 400 500 6 False] \<rparr>))
       = bulletsVsPlayer
        (lowHealth\<lparr> enemies := [enemyAt 400 500 20 20], bullets := [bulletAt 400 500 6 False] \<rparr>)"
proof -
  let ?B = "bulletAt 400 500 6 False"
  let ?E = "enemyAt 400 500 20 20"
  have low: "\<not> gameOver lowHealth" "invulnerable (player lowHealth) = 0"
    "health (player lowHealth) = 5" "pos (player lowHealth) = \<lparr> X = 400, Y = 500 \<rparr>"
    "radius (player lowHealth) = 15" "wave lowHealth = 1"
    by (simp_all add: lowHealth_def)
  have b1: "bulletsVsPlayerLoop [?B] lowHealth = ([], bulletHit ?B lowHealth)"
    by (simp add: low) (simp add: bulletAt_def)
  have bg: "gameOver (bulletHit ?B lowHealth)"
    by (simp add: bulletHit_gameOver low) (simp add: bulletAt_def)
  have e1: "playerVsEnemiesLoop [?E] lowHealth = ([], bodyHit ?E lowHealth)"
    by (simp add: low) (simp add: enemyAt_def)
  have eg: "gameOver (bodyHit ?E lowHealth)"
    by (simp add: bodyHit_gameOver low)
  let ?s = "lowHealth\<lparr> enemies := [?E], bullets := [?B] \<rparr>"
  have sg: "gameOver (bulletsVsPlayer ?s)"
    by (simp add: bulletsVsPlayer_def low bulletHit_gameOver) (simp add: bulletAt_def)
  show ?thesis
    using game_over_freezes_damage[where s = "sim0\<lparr> gameOver := True \<rparr>" and t = 16]
      game_over_freezes_damage[where s = lowHealth and ?bs2.0 = "[?B]" and bs2' = "[]"
        and ?s2.0 = "bulletHit ?B lowHealth" and ?bs1.0 = "[?B]" and es = "[?E]"
        and ?es2.0 = "[?E]" and es2' = "[]" and ?s3.0 = "bodyHit ?E lowHealth"
        and ?es1.0 = "[?E]"]
      game_over_freezes_damage[where s = ?s]
      low(1) b1 bg e1 eg sg
    by simp
qed

section \<open>Health mutations (C3)\<close>

lemma hitEnemy_fst:
  "fst (hitEnemy b e s) =
     (if e_health e - b_damage b \<le> 0 then None
      else Some (e\<lparr> e_health := e_health e - b_damage b \<rparr>))"
  by (simp add: hitEnemy_def Let_def)

text \<open>
  C3, as stated, fails: the damage paths subtract without a lower clamp. From 5 health
  a bullet of damage 6 stores \<open>- 1\<close>, and a body contact on wave 1 (penalty 12)
  stores \<open>- 7\<close>; both values are below 0 when the game-over check reads them.
\<close>

theorem health_not_clamped_counterexample:
  "health (player (bulletHit (bulletAt 400 500 6 False) lowHealth)) = - 1
   \<and> \<not> (0 \<le> health (player (bulletHit (bulletAt 400 500 6 False) lowHealth)))
   \<and> health (player (bodyHit (enemyAt 400 500 20 20) lowHealth)) = - 7
   \<and> \<not> (0 \<le> health (player (bodyHit (enemyAt 400 500 20 20) lowHealth)))"
  by (simp add: bulletHit_player bodyHit_player lowHealth_def bulletAt_def)

text \<open>
  C3, amended. No health mutation clamps at 0. A bullet hit stores the player's
  health minus the bullet's damage and a body contact stores it minus
  \<open>10 + 2 * wave\<close>; \<open>maxHealth\<close> is not written; whenever the stored value is at most
  0 the same hit sets \<open>gameOver\<close>. A player bullet stores the enemy's health minus the
  damage only when that is positive, otherwise the enemy leaves the array. With a
  damage that is not negative (for the body contact: from wave 1 on) a health that
  was at most \<open>maxHealth\<close> stays so. A health power-up stores
  \<open>min maxHealth (health + 20)\<close>, which is at most \<open>maxHealth\<close>, and is not negative
  when health was at least \<open>- 20\<close> and \<open>maxHealth\<close> is not negative.
\<close>

theorem health_mutations:
  "health (player (bulletHit b s)) = health (player s) - b_damage b
   \<and> maxHealth (player (bulletHit b s)) = maxHealth (player s)
   \<and> health (player (bodyHit e s)) = health (player s) - (10 + real_of_int (wave s) * 2)
   \<and> maxHealth (player (bodyHit e s)) = maxHealth (player s)
   \<and> (health (player (bulletHit b s)) \<le> 0 \<longrightarrow> gameOver (bulletHit b s))
   \<and> (health (player (bodyHit e s)) \<le> 0 \<longrightarrow> gameOver (bodyHit e s))
   \<and> (0 \<le> b_damage b \<and> health (player s) \<le> maxHealth (player s) \<longrightarrow>
        health (player (bulletHit b s)) \<le> maxHealth (player (bulletHit b s)))
   \<and> (1 \<le> wave s \<and> health (player s) \<le> maxHealth (player s) \<longrightarrow>
        health (player (bodyHit e s)) \<le> maxHealth (player (bodyHit e s)))
   \<and> fst (hitEnemy b e s) =
        (if e_health e - b_damage b \<le> 0 then None
         else Some (e\<lparr> e_health := e_health e - b_damage b \<rparr>))
   \<and> (0 \<le> b_damage b \<and> e_health e \<le> e_maxHealth e \<and> fst (hitEnemy b e s) = Some e' \<longrightarrow>
        0 < e_health e' \<and> e_health e' \<le> e_maxHealth e')
   \<and> health (applyPowerUp Health p) = min (maxHealth p) (health p + 20)
   \<and> health (applyPowerUp Health p) \<le> maxHealth (applyPowerUp Health p)
   \<and> (- 20 \<le> health p \<and> 0 \<le> maxHealth p \<longrightarrow> 0 \<le> health (applyPowerUp Health p))"
proof -
  have w: "1 \<le> wave s \<Longrightarrow> 0 \<le> 10 + real_of_int (wave s) * 2" by simp
  have e: "0 \<le> b_damage b \<and> e_health e \<le> e_maxHealth e \<and> fst (hitEnemy b e s) = Some e' \<longrightarrow>
        0 < e_health e' \<and> e_health e' \<le> e_maxHealth e'"
    by (auto simp add: hitEnemy_fst split: if_splits)
  show ?thesis
    using w e
    by (simp add: bulletHit_player bodyHit_player bulletHit_gameOver bodyHit_gameOver hitEnemy_fst)
qed

text \<open>
  The witness: the two fatal hits on \<open>lowHealth\<close>; the spec's scenario A (health 100,
  bullet damage 30, result 70) and a body contact on wave 1 (result 88); an enemy of
  health 20 that survives a bullet of damage 10 with health 10; a health power-up at
  health 5.
\<close>

theorem health_mutations_witness:
  "health (player (bulletHit (bulletAt 400 500 6 False) lowHealth)) \<le> 0
   \<and> gameOver (bulletHit (bulletAt 400 500 6 False) lowHealth)
   \<and> health (player (bodyHit (enemyAt 400 500 20 20) lowHealth)) \<le> 0
   \<and> gameOver (bodyHit (enemyAt 400 500 20 20) lowHealth)
   \<and> 0 \<le> b_damage (bulletAt 400 500 30 False)
   \<and> 1 \<le> wave sim0
   \<and> health (player sim0) \<le> maxHealth (player sim0)
   \<and> health (player (bulletHit (bulletAt 400 500 30 False) sim0)) = 70
   \<and> health (player (bulletHit (bulletAt 400 500 30 False) sim0))
        \<le> maxHealth (player (bulletHit (bulletAt 400 500 30 False) sim0))
   \<and> health (player (bodyHit (enemyAt 400 500 20 20) sim0)) = 88
   \<and> health (player (bodyHit (enemyAt 400 500 20 20) sim0))
        \<le> maxHealth (player (bodyHit (enemyAt 400 500 20 20) sim0))
   \<and> e_health (enemyAt 400 500 20 20) \<le> e_maxHealth (enemyAt 400 500 20 20)
   \<and> fst (hitEnemy (bulletAt 400 500 10 True) (enemyAt 400 500 20 20) sim0)
        = Some (enemyAt 400 500 10 20)
   \<and> 0 < e_health (enemyAt 400 500 10 20)
   \<and> e_health (enemyAt 400 500 10 20) \<le> e_maxHealth (enemyAt 400 500 10 20)
   \<and> - 20 \<le> health (player lowHealth) \<and> 0 \<le> maxHealth (player lowHealth)
   \<and> health (applyPowerUp Health (player lowHealth)) = 25
   \<and> 0 \<le> health (applyPowerUp Health (player lowHealth))"
  using health_mutations[where s = lowHealth and b = "bulletAt 400 500 6 False"
          and e = "enemyAt 400 500 20 20" and p = "player lowHealth"]
    health_mutations[where s = sim0 and b = "bulletAt 400 500 30 False"
          and e = "enemyAt 400 500 20 20"]
    health_mutations[where s = sim0 and b = "bulletAt 400 500 10 True"
          and e = "enemyAt 400 500 20 20" and e' = "enemyAt 400 500 10 20"]
  by (simp add: lowHealth_def bulletAt_def enemyAt_def)

section \<open>Player bullets against enemies (C5)\<close>

lemma scanEnemies_miss:
  "(\<forall>e'\<in>set es. \<not> distance (pos b) (pos e') < fl (radius b + radius e')) \<Longrightarrow>
   scanEnemies b es s = None"
  by (induction es) simp_all

lemma scanEnemies_first:
  assumes "distance (pos b) (pos e) < fl (radius b + radius e)"
    and "\<forall>e'\<in>set es2. \<not> distance (pos b) (pos e') < fl (radius b + radius e')"
  shows "scanEnemies b (es1 @ e # es2) s =
     Some (es1 @ (case fst (hitEnemy b e s) of None \<Rightarrow> [] | Some e' \<Rightarrow> [e']) @ es2,
           snd (hitEnemy b e s))"
proof (induction es1)
  case Nil
  show ?case
    using assms by (simp add: scanEnemies_miss split: prod.splits option.splits)
next
  case (Cons a es1)
  then show ?case by simp
qed

lemma spawnPowerUp_powerUps:
  "powerUps (spawnPowerUp p s) =
     (if randoms s (draws s) < 0.3
      then powerUps s @
             [\<lparr> pos = p, vel = \<lparr> X = 0, Y = 2 \<rparr>, radius = 10,
                pu_type = [Health, Damage, FireRate, Speed] ! nat \<lfloor>randoms s (Suc (draws s)) * 4\<rfloor>,
                pu_color = colors ([Health, Damage, FireRate, Speed] !
                                     nat \<lfloor>randoms s (Suc (draws s)) * 4\<rfloor>) \<rparr>]
      else powerUps s)"
  by (simp add: spawnPowerUp_def Let_def)

lemma hitEnemy_survives:
  "0 < e_health e - b_damage b \<Longrightarrow>
   hitEnemy b e s =
     (Some (e\<lparr> e_health := e_health e - b_damage b \<rparr>), createParticles (pos b) (e_color e) 5 s)"
  by (simp add: hitEnemy_def Let_def)

lemma hitEnemy_kills:
  assumes "e_health e - b_damage b \<le> 0"
  shows "fst (hitEnemy b e s) = None"
    and "score (snd (hitEnemy b e s)) =
           score s + \<lfloor>fl (fl (10 * real_of_int (wave s)) * fl (e_maxHealth e / 20))\<rfloor>"
    and "enemiesKilled (snd (hitEnemy b e s)) = enemiesKilled s + 1"
    and "powerUps (snd (hitEnemy b e s)) =
     (if randoms s (draws s + 40) < 0.3
      then powerUps s @
             [\<lparr> pos = pos e, vel = \<lparr> X = 0, Y = 2 \<rparr>, radius = 10,
                pu_type = [Health, Damage, FireRate, Speed] ! nat \<lfloor>randoms s (draws s + 41) * 4\<rfloor>,
                pu_color = colors ([Health, Damage, FireRate, Speed] !
                                     nat \<lfloor>randoms s (draws s + 41) * 4\<rfloor>) \<rparr>]
      else powerUps s)"
  using assms by (simp_all add: hitEnemy_def Let_def spawnPowerUp_powerUps add.commute)

lemma twoBullets_pass:
  "bullets (bulletsVsEnemies (sim0\<lparr> enemies := [enemyAt 400 300 20 20],
      bullets := [bulletAt 400 300 10 True] \<rparr>)) = []"
  "enemies (bulletsVsEnemies (sim0\<lparr> enemies := [enemyAt 400 300 20 20],
      bullets := [bulletAt 400 300 10 True] \<rparr>)) = [enemyAt 400 300 10 20]"
  "score (bulletsVsEnemies (sim0\<lparr> enemies := [enemyAt 400 300 20 20],
      bullets := [bulletAt 400 300 10 True] \<rparr>)) = 0"
  "bullets (bulletsVsEnemies (sim0\<lparr> enemies := [enemyAt 400 300 20 20],
      bullets := [bulletAt 400 300 10 True, bulletAt 400 300 10 True] \<rparr>)) = []"
  "enemies (bulletsVsEnemies (sim0\<lparr> enemies := [enemyAt 400 300 20 20],
      bullets := [bulletAt 400 300 10 True, bulletAt 400 300 10 True] \<rparr>)) = []"
  "score (bulletsVsEnemies (sim0\<lparr> enemies := [enemyAt 400 300 20 20],
      bullets := [bulletAt 400 300 10 True, bulletAt 400 300 10 True] \<rparr>)) = 10"
  "enemiesKilled (bulletsVsEnemies (sim0\<lparr> enemies := [enemyAt 400 300 20 20],
      bullets := [bulletAt 400 300 10 True, bulletAt 400 300 10 True] \<rparr>)) = 1"
  by (simp_all add: bulletsVsEnemies_def bulletAt_def enemyAt_def hitEnemy_def Let_def)

text \<open>The doubles of the score of a shooter killed on wave 18.\<close>

lemma fl_87_20: "fl (87 / 20) = 4897664594765414 / 2 ^ 50"
proof -
  have "fl (87 / 20) = of_int (rne ((87 / 20) / 2 powi (2 - 52))) * 2 powi (2 - 52)"
    by (rule fl_eq) simp_all
  also have "(87 / 20 :: real) / 2 powi (2 - 52) = 24488322973827072 / 5"
    by (simp add: power_int_minus)
  also have "rne (24488322973827072 / 5) = 4897664594765414"
    by (simp add: rne_def Let_def)
  finally show ?thesis by (simp add: power_int_minus)
qed

lemma score_wave18: "\<lfloor>fl (fl (10 * 18) * fl (87 / 20))\<rfloor> = 782"
proof -
  have a: "fl (10 * 18) = 180" by simp
  have p: "(180::real) * (4897664594765414 / 2 ^ 50) = 881579627057774520 / 2 ^ 50" by simp
  have "fl (881579627057774520 / 2 ^ 50)
      = of_int (rne ((881579627057774520 / 2 ^ 50) / 2 powi (9 - 52))) * 2 powi (9 - 52)"
    by (rule fl_eq) simp_all
  also have "(881579627057774520 / 2 ^ 50 :: real) / 2 powi (9 - 52) = 881579627057774520 / 128"
    by (simp add: power_int_minus)
  also have "rne (881579627057774520 / 128) = 6887340836388863"
    by (simp add: rne_def Let_def)
  finally have f: "fl (881579627057774520 / 2 ^ 50) = 6887340836388863 / 2 ^ 43"
    by (simp add: power_int_minus)
  show ?thesis
    unfolding a fl_87_20 p f by simp
qed

text \<open>
  The error of one rounding: \<open>exponent\<close> brackets its argument, the nearest integer
  is at most one half away, and a double in the normal range is within
  \<open>\<bar>x\<bar> / 2 ^ 53\<close> of the number it rounds. The score of a kill is therefore within one
  point of the exact floor.
\<close>

lemma exponent_bounds:
  assumes "x \<noteq> 0"
  shows "2 powi (exponent x) \<le> \<bar>x\<bar>" and "\<bar>x\<bar> < 2 powi (exponent x + 1)"
proof -
  have "2 powi (exponent x) \<le> \<bar>x\<bar> \<and> \<bar>x\<bar> < 2 powi (exponent x + 1)"
  proof (cases "1 \<le> \<bar>x\<bar>")
    case True
    define n where "n = nat \<lfloor>\<bar>x\<bar>\<rfloor>"
    have f1: "1 \<le> \<lfloor>\<bar>x\<bar>\<rfloor>" using True by simp
    have n1: "0 < n" unfolding n_def using f1 by linarith
    have n2: "int n = \<lfloor>\<bar>x\<bar>\<rfloor>" unfolding n_def by simp
    note n = n1 n2
    define k where "k = bits n - 1"
    have bp: "0 < bits n" using n(1) by (simp add: bits.simps[of n])
    then have bk: "bits n = Suc k" by (simp add: k_def)
    from bits_bounds[OF n(1)] have b: "2 ^ k \<le> n" "n < 2 ^ Suc k" by (simp_all add: bk)
    have e: "exponent x = int k" using True by (simp add: exponent_def n_def[symmetric] bk)
    have rn: "real n = real_of_int \<lfloor>\<bar>x\<bar>\<rfloor>"
      by (metis n(2) of_int_of_nat_eq)
    have r1: "(2::real) ^ k \<le> real n" using b(1) by simp
    have "real n \<le> \<bar>x\<bar>" unfolding rn by linarith
    then have lo: "(2::real) ^ k \<le> \<bar>x\<bar>" using r1 by linarith
    have "Suc n \<le> 2 ^ Suc k" using b(2) by simp
    then have r2: "real (Suc n) \<le> (2::real) ^ Suc k"
      by (metis of_nat_le_iff of_nat_numeral of_nat_power)
    have "\<bar>x\<bar> < real n + 1" unfolding rn by linarith
    then have hi: "\<bar>x\<bar> < (2::real) ^ Suc k" using r2 by simp
    have e1: "exponent x + 1 = int (Suc k)" using e by simp
    have q1: "(2::real) powi (exponent x) = 2 ^ k" by (simp only: e power_int_of_nat)
    have q2: "(2::real) powi (exponent x + 1) = 2 ^ Suc k" by (simp only: e1 power_int_of_nat)
    show ?thesis unfolding q1 q2 using lo hi by blast
  next
    case False
    then have small: "\<bar>x\<bar> < 1" by simp
    have pos: "0 < \<bar>x\<bar>" using assms by simp
    define c where "c = \<lceil>1 / \<bar>x\<bar>\<rceil>"
    have gt1: "1 < 1 / \<bar>x\<bar>" using small pos by (simp add: field_simps)
    then have c2: "2 \<le> c" unfolding c_def by linarith
    define m where "m = nat (c - 1)"
    have m1: "0 < m" unfolding m_def using c2 by linarith
    have m2: "int m = c - 1" unfolding m_def using c2 by linarith
    note m = m1 m2
    define k where "k = bits m - 1"
    have bp: "0 < bits m" using m(1) by (simp add: bits.simps[of m])
    then have bk: "bits m = Suc k" by (simp add: k_def)
    from bits_bounds[OF m(1)] have b: "2 ^ k \<le> m" "m < 2 ^ Suc k" by (simp_all add: bk)
    have e: "exponent x = - int (Suc k)"
      using False by (simp add: exponent_def c_def[symmetric] m_def[symmetric] bk)
    have e1: "exponent x + 1 = - int k" using e by simp
    have p1: "(2::real) powi (exponent x) = 1 / 2 ^ Suc k"
      by (simp only: e power_int_minus power_int_of_nat inverse_eq_divide)
    have p2: "(2::real) powi (exponent x + 1) = 1 / 2 ^ k"
      by (simp only: e1 power_int_minus power_int_of_nat inverse_eq_divide)
    have cm: "real_of_int c - 1 < 1 / \<bar>x\<bar>" "1 / \<bar>x\<bar> \<le> real_of_int c"
      unfolding c_def by linarith+
    have r1: "(2::real) ^ k \<le> real m" using b(1) by simp
    have rm: "real m = real_of_int c - 1" using m(2)
      by (metis of_int_1 of_int_diff of_int_of_nat_eq)
    have "(2::real) ^ k < 1 / \<bar>x\<bar>" using cm(1) r1 rm by linarith
    then have "\<bar>x\<bar> * 2 ^ k < 1" using pos by (simp add: field_simps)
    then have hi: "\<bar>x\<bar> < 1 / 2 ^ k" by (simp add: field_simps)
    have "Suc m \<le> 2 ^ Suc k" using b(2) by simp
    then have r2: "real (Suc m) \<le> (2::real) ^ Suc k"
      by (metis of_nat_le_iff of_nat_numeral of_nat_power)
    have "real (Suc m) = real_of_int c" using rm by simp
    then have "1 / \<bar>x\<bar> \<le> 2 ^ Suc k" using cm(2) r2 by linarith
    then have "1 \<le> \<bar>x\<bar> * 2 ^ Suc k" using pos by (simp add: field_simps)
    then have lo: "1 / 2 ^ Suc k \<le> \<bar>x\<bar>" by (simp add: field_simps)
    show ?thesis unfolding p1 p2 using lo hi by blast
  qed
  then show "2 powi (exponent x) \<le> \<bar>x\<bar>" and "\<bar>x\<bar> < 2 powi (exponent x + 1)" by simp_all
qed

lemma rne_error: "\<bar>real_of_int (rne q) - q\<bar> \<le> 1 / 2"
proof -
  have "real_of_int \<lfloor>q\<rfloor> \<le> q" "q < real_of_int \<lfloor>q\<rfloor> + 1" by linarith+
  then show ?thesis by (auto simp add: rne_def Let_def)
qed

lemma fl_error:
  assumes "2 powi (- 1022) \<le> \<bar>x\<bar>"
  shows "\<bar>fl x - x\<bar> \<le> \<bar>x\<bar> / 2 ^ 53"
proof -
  have p: "(0::real) < 2 powi (- 1022)" by (rule zero_less_power_int) simp
  have x0: "x \<noteq> 0"
  proof
    assume "x = 0"
    then show False using assms p by simp
  qed
  define e where "e = exponent x"
  have lo: "2 powi e \<le> \<bar>x\<bar>" and hi: "\<bar>x\<bar> < 2 powi (e + 1)"
    using exponent_bounds[OF x0] by (simp_all add: e_def)
  have e: "- 1022 \<le> e"
  proof (rule ccontr)
    assume "\<not> - 1022 \<le> e"
    then have "e + 1 \<le> - 1022" by simp
    then have "(2::real) powi (e + 1) \<le> 2 powi (- 1022)"
      by (intro power_int_increasing) simp_all
    then show False using hi assms by linarith
  qed
  define u where "u = (2::real) powi (e - 52)"
  have u0: "0 < u" unfolding u_def by (rule zero_less_power_int) simp
  have f: "fl x = of_int (rne (x / u)) * u"
    unfolding u_def by (rule fl_eq[OF lo hi e])
  have "fl x - x = (of_int (rne (x / u)) - x / u) * u"
    using u0 by (simp add: f field_simps)
  then have "\<bar>fl x - x\<bar> = \<bar>of_int (rne (x / u)) - x / u\<bar> * u"
    using u0 by (simp add: abs_mult)
  also have "\<dots> \<le> (1 / 2) * u"
    using rne_error[of "x / u"] u0 by (intro mult_right_mono) simp_all
  also have "(1 / 2) * u = 2 powi e / 2 ^ 53"
  proof -
    have "e - 52 = e + (- 52)" by simp
    then have "u = 2 powi e * 2 powi (- 52)"
      unfolding u_def by (simp only: power_int_add[of "2::real", simplified])
    then show ?thesis by (simp add: power_int_minus)
  qed
  also have "\<dots> \<le> \<bar>x\<bar> / 2 ^ 53" using lo by (simp add: divide_right_mono)
  finally show ?thesis .
qed

lemma tiny: "(2::real) powi (- 1022) \<le> 1 / 32"
proof -
  have "(2::real) powi (- 1022) \<le> 2 powi (- 5)"
    by (intro power_int_increasing) simp_all
  then show ?thesis by (simp add: power_int_minus)
qed

lemma score_near:
  assumes w: "1 \<le> w" "w \<le> 1000000" and h: "1 \<le> h" "h \<le> 100000000"
  shows "\<bar>\<lfloor>fl (fl (10 * real_of_int w) * fl (h / 20))\<rfloor> - \<lfloor>10 * real_of_int w * h / 20\<rfloor>\<bar> \<le> 1"
proof -
  define a where "a = 10 * real_of_int w"
  define b where "b = h / 20"
  define b' where "b' = fl b"
  define p where "p = a * b'"
  define v where "v = a * b"
  have a: "10 \<le> a" "a \<le> 10000000" using w by (simp_all add: a_def)
  have fa: "fl (10 * real_of_int w) = a"
  proof -
    have "\<bar>10 * w\<bar> < 2 ^ 53" using w by simp
    then have "fl (of_int (10 * w)) = of_int (10 * w)" by (rule fl_of_int)
    then show ?thesis by (simp add: a_def)
  qed
  have b: "1 / 20 \<le> b" "b \<le> 5000000" using h by (simp_all add: b_def)
  have bn: "2 powi (- 1022) \<le> \<bar>b\<bar>" using tiny b(1) by simp
  have eb: "\<bar>b' - b\<bar> \<le> b / 2 ^ 53"
    using fl_error[OF bn] b(1) by (simp add: b'_def)
  have "b / 2 ^ 53 \<le> b / 2" using b(1) by (simp add: field_simps)
  then have b'lo: "b / 2 \<le> b'" and b'hi: "b' \<le> 2 * b" using eb b(1) by linarith+
  have v: "0 < v" "v \<le> 50000000000000"
  proof -
    show "0 < v" using a(1) b(1) by (simp add: v_def)
    have "a * b \<le> 10000000 * 5000000"
      using a b by (intro mult_mono) simp_all
    then show "v \<le> 50000000000000" by (simp add: v_def)
  qed
  have pv: "\<bar>p - v\<bar> \<le> v / 2 ^ 53"
  proof -
    have "\<bar>p - v\<bar> = a * \<bar>b' - b\<bar>"
      using a(1) by (simp add: p_def v_def right_diff_distrib[symmetric] abs_mult)
    also have "\<dots> \<le> a * (b / 2 ^ 53)"
      using eb a(1) by (intro mult_left_mono) simp_all
    finally show ?thesis by (simp add: v_def)
  qed
  have "v / 2 ^ 53 \<le> v / 2" using v(1) by (simp add: field_simps)
  then have plo: "v / 2 \<le> p" and phi: "p \<le> 2 * v" using pv v(1) by linarith+
  have "(1::real) / 320 \<le> v / 2"
  proof -
    have "10 * (1 / 20) \<le> a * b" using a(1) b(1) by (intro mult_mono) simp_all
    then show ?thesis by (simp add: v_def)
  qed
  then have pn: "2 powi (- 1022) \<le> \<bar>p\<bar>" using tiny plo by simp
  have ep: "\<bar>fl p - p\<bar> \<le> \<bar>p\<bar> / 2 ^ 53" by (rule fl_error[OF pn])
  have "\<bar>p\<bar> / 2 ^ 53 \<le> 2 * v / 2 ^ 53"
    using phi plo v(1) by (intro divide_right_mono) simp_all
  then have e1: "\<bar>fl p - p\<bar> \<le> 2 * v / 2 ^ 53" using ep by linarith
  have tri: "\<bar>fl p - v\<bar> \<le> \<bar>fl p - p\<bar> + \<bar>p - v\<bar>" by linarith
  have "\<bar>fl p - v\<bar> \<le> 2 * v / 2 ^ 53 + v / 2 ^ 53" using e1 pv tri by linarith
  also have "\<dots> = 3 * v / 2 ^ 53" by simp
  also have "\<dots> < 1" using v(2) by simp
  finally have near: "\<bar>fl p - v\<bar> < 1" .
  have "\<lfloor>fl p\<rfloor> \<le> \<lfloor>v + 1\<rfloor>" using near by (intro floor_mono) linarith
  moreover have "\<lfloor>v - 1\<rfloor> \<le> \<lfloor>fl p\<rfloor>" using near by (intro floor_mono) linarith
  ultimately have "\<bar>\<lfloor>fl p\<rfloor> - \<lfloor>v\<rfloor>\<bar> \<le> 1" by simp
  moreover have "fl (fl (10 * real_of_int w) * fl (h / 20)) = fl p"
    by (simp add: fa p_def b'_def b_def)
  moreover have "10 * real_of_int w * h / 20 = v" by (simp add: v_def a_def b_def)
  ultimately show ?thesis by simp
qed

text \<open>
  C5. The score of a kill is not always \<open>\<lfloor>10 * wave * maxHealth / 20\<rfloor>\<close>. Line 366
  computes \<open>Math.floor(10 * wave * (maxHealth / 20))\<close> in doubles, and the quotient
  \<open>maxHealth / 20\<close> is rounded before it is multiplied. A shooter of wave 18 has
  \<open>maxHealth = 15 + 18 * 4 = 87\<close>; the double nearest to \<open>87 / 20\<close> lies below
  \<open>4.35\<close>, the product with 180 rounds to a double below 783, and the kill awards
  782, while \<open>\<lfloor>10 * 18 * 87 / 20\<rfloor> = 783\<close>.
\<close>

theorem kill_score_counterexample:
  "config Shooter 18 = (87, 33 / 10, 12, ''#ff44ff'')
   \<and> e_maxHealth (shooter18 400 300 10) = 87
   \<and> wave wave18 = 18
   \<and> fst (hitEnemy (bulletAt 400 300 10 True) (shooter18 400 300 10) wave18) = None
   \<and> score (snd (hitEnemy (bulletAt 400 300 10 True) (shooter18 400 300 10) wave18))
       = score wave18 + 782
   \<and> \<lfloor>10 * real_of_int (wave wave18) * e_maxHealth (shooter18 400 300 10) / 20\<rfloor> = 783"
proof -
  have k: "e_health (shooter18 400 300 10) - b_damage (bulletAt 400 300 10 True) \<le> 0"
    by (simp add: shooter18_def bulletAt_def)
  have m: "e_maxHealth (shooter18 400 300 10) = 87" "wave wave18 = 18"
    by (simp_all add: shooter18_def wave18_def)
  have s: "score (snd (hitEnemy (bulletAt 400 300 10 True) (shooter18 400 300 10) wave18))
       = score wave18 + 782"
    unfolding hitEnemy_kills(2)[OF k] m using score_wave18 by simp
  have f: "\<lfloor>10 * real_of_int 18 * 87 / 20 :: real\<rfloor> = 783" by simp
  show ?thesis
    using hitEnemy_kills(1)[OF k] s f by (simp add: m)
qed

text \<open>
  C5, amended. A player-owned bullet that overlaps no enemy changes nothing and stays.
  Otherwise it resolves against exactly one enemy, the overlapping one with the
  highest index (the first one the downward scan meets, whatever its distance): the
  enemies before and after it stay as they are, the bullet leaves the array, and the
  enemy's health drops by the bullet's damage. If the result is positive the enemy
  stays, and score, kill counter and power-ups are unchanged. If it is at most 0 the
  enemy leaves the array, the score grows by the floor of the double
  \<open>10 * wave * (maxHealth / 20)\<close> as line 366 computes it, the kill counter by one, and
  a power-up is appended at the enemy's position exactly when the random number drawn
  for the drop (the 41st after the two particle bursts' 40) is below 0.3. The score
  awarded differs from \<open>\<lfloor>10 * wave * maxHealth / 20\<rfloor>\<close> by at most one point, for every
  wave from 1 to 1000000 and every \<open>maxHealth\<close> from 1 to 100000000. In scenario B
  (enemy of health and maxHealth 20 on wave 1, two bullets of damage 10) the first
  hit leaves health 10 and score 0, the second removes the enemy with score 10.
\<close>

theorem player_bullet_resolution:
  "((\<forall>e'\<in>set es. \<not> distance (pos b) (pos e') < fl (radius b + radius e')) \<longrightarrow>
      scanEnemies b es s = None)
   \<and> (distance (pos b) (pos e) < fl (radius b + radius e) \<and>
       (\<forall>e'\<in>set es2. \<not> distance (pos b) (pos e') < fl (radius b + radius e')) \<longrightarrow>
      scanEnemies b (es1 @ e # es2) s =
        Some (es1 @ (case fst (hitEnemy b e s) of None \<Rightarrow> [] | Some e' \<Rightarrow> [e']) @ es2,
              snd (hitEnemy b e s)))
   \<and> (isPlayerBullet b \<longrightarrow>
      bulletsVsEnemiesLoop [b] s =
        (case scanEnemies b (enemies s) s of
           None \<Rightarrow> ([b], s)
         | Some (es', s') \<Rightarrow> ([], s'\<lparr> enemies := es' \<rparr>)))
   \<and> (0 < e_health e - b_damage b \<longrightarrow>
      hitEnemy b e s =
        (Some (e\<lparr> e_health := e_health e - b_damage b \<rparr>),
         createParticles (pos b) (e_color e) 5 s))
   \<and> (e_health e - b_damage b \<le> 0 \<longrightarrow>
      fst (hitEnemy b e s) = None \<and>
      score (snd (hitEnemy b e s)) =
        score s + \<lfloor>fl (fl (10 * real_of_int (wave s)) * fl (e_maxHealth e / 20))\<rfloor> \<and>
      enemiesKilled (snd (hitEnemy b e s)) = enemiesKilled s + 1 \<and>
      powerUps (snd (hitEnemy b e s)) =
        (if randoms s (draws s + 40) < 0.3
         then powerUps s @
                [\<lparr> pos = pos e, vel = \<lparr> X = 0, Y = 2 \<rparr>, radius = 10,
                   pu_type = [Health, Damage, FireRate, Speed] !
                               nat \<lfloor>randoms s (draws s + 41) * 4\<rfloor>,
                   pu_color = colors ([Health, Damage, FireRate, Speed] !
                                        nat \<lfloor>randoms s (draws s + 41) * 4\<rfloor>) \<rparr>]
         else powerUps s))
   \<and> (e_health e - b_damage b \<le> 0 \<and> 1 \<le> wave s \<and> wave s \<le> 1000000 \<and>
       1 \<le> e_maxHealth e \<and> e_maxHealth e \<le> 100000000 \<longrightarrow>
      \<bar>score (snd (hitEnemy b e s))
         - (score s + \<lfloor>10 * real_of_int (wave s) * e_maxHealth e / 20\<rfloor>)\<bar> \<le> 1)
   \<and> enemies (bulletsVsEnemies (sim0\<lparr> enemies := [enemyAt 400 300 20 20],
        bullets := [bulletAt 400 300 10 True] \<rparr>)) = [enemyAt 400 300 10 20]
   \<and> score (bulletsVsEnemies (sim0\<lparr> enemies := [enemyAt 400 300 20 20],
        bullets := [bulletAt 400 300 10 True] \<rparr>)) = 0
   \<and> enemies (bulletsVsEnemies (sim0\<lparr> enemies := [enemyAt 400 300 20 20],
        bullets := [bulletAt 400 300 10 True, bulletAt 400 300 10 True] \<rparr>)) = []
   \<and> score (bulletsVsEnemies (sim0\<lparr> enemies := [enemyAt 400 300 20 20],
        bullets := [bulletAt 400 300 10 True, bulletAt 400 300 10 True] \<rparr>)) = 10"
proof -
  have 3: "isPlayerBullet b \<longrightarrow>
      bulletsVsEnemiesLoop [b] s =
        (case scanEnemies b (enemies s) s of
           None \<Rightarrow> ([b], s)
         | Some (es', s') \<Rightarrow> ([], s'\<lparr> enemies := es' \<rparr>))"
    by simp
  have 6: "e_health e - b_damage b \<le> 0 \<and> 1 \<le> wave s \<and> wave s \<le> 1000000 \<and>
       1 \<le> e_maxHealth e \<and> e_maxHealth e \<le> 100000000 \<longrightarrow>
      \<bar>score (snd (hitEnemy b e s))
         - (score s + \<lfloor>10 * real_of_int (wave s) * e_maxHealth e / 20\<rfloor>)\<bar> \<le> 1"
  proof (intro impI, elim conjE)
    assume k: "e_health e - b_damage b \<le> 0"
      and w: "1 \<le> wave s" "wave s \<le> 1000000"
      and h: "1 \<le> e_maxHealth e" "e_maxHealth e \<le> 100000000"
    show "\<bar>score (snd (hitEnemy b e s))
         - (score s + \<lfloor>10 * real_of_int (wave s) * e_maxHealth e / 20\<rfloor>)\<bar> \<le> 1"
      unfolding hitEnemy_kills(2)[OF k] using score_near[OF w h] by simp
  qed
  show ?thesis
    using scanEnemies_miss[of es b s] scanEnemies_first[of b e es2 es1 s] 3 6
      hitEnemy_survives[of e b s] hitEnemy_kills[of e b s] twoBullets_pass(2,3,5,6)
    by blast
qed

text \<open>
  The witness: a bullet at \<open>(400, 300)\<close>; the enemy on the same spot has index 0 and
  the one 10 units away index 1, and the hit goes to index 1; an enemy 30 units away
  is missed; an enemy with 10 health left on wave 1 is destroyed for 10 points, and
  with the random number one half nothing drops.
\<close>

theorem player_bullet_resolution_witness:
  "isPlayerBullet (bulletAt 400 300 10 True)
   \<and> distance (pos (bulletAt 400 300 10 True)) (pos (enemyAt 400 300 20 20))
       < distance (pos (bulletAt 400 300 10 True)) (pos (enemyAt 400 310 20 20))
   \<and> distance (pos (bulletAt 400 300 10 True)) (pos (enemyAt 400 310 20 20))
       < fl (radius (bulletAt 400 300 10 True) + radius (enemyAt 400 310 20 20))
   \<and> scanEnemies (bulletAt 400 300 10 True) [enemyAt 400 300 20 20, enemyAt 400 310 20 20] sim0
       = Some ([enemyAt 400 300 20 20, enemyAt 400 310 10 20],
               createParticles \<lparr> X = 400, Y = 300 \<rparr> ''#ff4444'' 5 sim0)
   \<and> \<not> distance (pos (bulletAt 400 300 10 True)) (pos (enemyAt 400 330 20 20))
       < fl (radius (bulletAt 400 300 10 True) + radius (enemyAt 400 330 20 20))
   \<and> scanEnemies (bulletAt 400 300 10 True) [enemyAt 400 330 20 20] sim0 = None
   \<and> e_health (enemyAt 400 310 10 20) - b_damage (bulletAt 400 300 10 True) \<le> 0
   \<and> fst (hitEnemy (bulletAt 400 300 10 True) (enemyAt 400 310 10 20) sim0) = None
   \<and> score (snd (hitEnemy (bulletAt 400 300 10 True) (enemyAt 400 310 10 20) sim0)) = 10
   \<and> enemiesKilled (snd (hitEnemy (bulletAt 400 300 10 True) (enemyAt 400 310 10 20) sim0)) = 1
   \<and> 1 \<le> wave sim0 \<and> wave sim0 \<le> 1000000
   \<and> 1 \<le> e_maxHealth (enemyAt 400 310 10 20) \<and> e_maxHealth (enemyAt 400 310 10 20) \<le> 100000000
   \<and> \<bar>score (snd (hitEnemy (bulletAt 400 300 10 True) (enemyAt 400 310 10 20) sim0))
        - (score sim0 + \<lfloor>10 * real_of_int (wave sim0) * e_maxHealth (enemyAt 400 310 10 20) / 20\<rfloor>)\<bar> \<le> 1
   \<and> \<not> randoms sim0 (draws sim0 + 40) < 0.3
   \<and> powerUps (snd (hitEnemy (bulletAt 400 300 10 True) (enemyAt 400 310 10 20) sim0)) = []"
proof -
  let ?B = "bulletAt 400 300 10 True"
  let ?E0 = "enemyAt 400 300 20 20"
  let ?E1 = "enemyAt 400 310 20 20"
  let ?E2 = "enemyAt 400 310 10 20"
  let ?E3 = "enemyAt 400 330 20 20"
  have d: "distance (pos ?B) (pos ?E0) = 0" "distance (pos ?B) (pos ?E1) = 10"
    "distance (pos ?B) (pos ?E2) = 10" "distance (pos ?B) (pos ?E3) = 30"
    by (simp_all add: bulletAt_def enemyAt_def distance_def sqrt_squares)
  have r: "radius ?B = 5" "radius ?E1 = 15" "radius ?E2 = 15" "radius ?E3 = 15"
    "isPlayerBullet ?B" "b_damage ?B = 10"
    by (simp_all add: bulletAt_def enemyAt_def)
  have e: "e_health ?E1 = 20" "e_health ?E2 = 10" "e_maxHealth ?E2 = 20"
    "e_color ?E1 = ''#ff4444''" "?E1\<lparr> e_health := 10 \<rparr> = ?E2"
    by (simp_all add: enemyAt_def)
  have b: "pos ?B = \<lparr> X = 400, Y = 300 \<rparr>" by (simp add: bulletAt_def)
  note T1 = player_bullet_resolution[where b = ?B and e = ?E1 and ?es1.0 = "[?E0]"
      and ?es2.0 = "[]" and s = sim0 and es = "[?E3]"]
  note T2 = player_bullet_resolution[where b = ?B and e = ?E2 and s = sim0]
  have h1: "hitEnemy ?B ?E1 sim0 = (Some ?E2, createParticles (pos ?B) ''#ff4444'' 5 sim0)"
    using T1[THEN conjunct2, THEN conjunct2, THEN conjunct2, THEN conjunct1]
    by (simp add: e r)
  have s1: "scanEnemies ?B ([?E0] @ ?E1 # []) sim0 =
      Some ([?E0] @ [?E2] @ [], createParticles (pos ?B) ''#ff4444'' 5 sim0)"
    using T1[THEN conjunct2, THEN conjunct1]
    by (simp del: scanEnemies.simps add: d r h1)
  have s3: "scanEnemies ?B [?E3] sim0 = None"
    using T1[THEN conjunct1] by (simp del: scanEnemies.simps add: d r)
  have k: "fst (hitEnemy ?B ?E2 sim0) = None"
    "score (snd (hitEnemy ?B ?E2 sim0)) = 10"
    "enemiesKilled (snd (hitEnemy ?B ?E2 sim0)) = 1"
    "powerUps (snd (hitEnemy ?B ?E2 sim0)) = []"
    using T2[THEN conjunct2, THEN conjunct2, THEN conjunct2, THEN conjunct2, THEN conjunct1]
    by (simp_all add: e r)
  show ?thesis
    using s1[unfolded b] s3 k by (simp del: scanEnemies.simps add: d r e)
qed
section \<open>Bullet ownership (C10)\<close>

lemma bulletsVsEnemiesLoop_filter:
  "bulletsVsEnemiesLoop bs s = (bs', s') \<Longrightarrow>
   bulletsVsEnemiesLoop (filter isPlayerBullet bs) s = (filter isPlayerBullet bs', s') \<and>
   filter (\<lambda>b. \<not> isPlayerBullet b) bs' = filter (\<lambda>b. \<not> isPlayerBullet b) bs"
proof (induction bs arbitrary: bs' s')
  case Nil
  then show ?case by simp
next
  case (Cons b bs)
  obtain bs1 s1 where l: "bulletsVsEnemiesLoop bs s = (bs1, s1)" by force
  note ih = Cons.IH[OF l]
  show ?case
    using Cons.prems ih l by (auto split: option.splits)
qed

lemma bulletsVsPlayerLoop_filter:
  "bulletsVsPlayerLoop bs s = (bs', s') \<Longrightarrow>
   bulletsVsPlayerLoop (filter (\<lambda>b. \<not> isPlayerBullet b) bs) s
     = (filter (\<lambda>b. \<not> isPlayerBullet b) bs', s') \<and>
   filter isPlayerBullet bs' = filter isPlayerBullet bs"
proof (induction bs arbitrary: bs' s')
  case Nil
  then show ?case by simp
next
  case (Cons b bs)
  obtain bs1 s1 where l: "bulletsVsPlayerLoop bs s = (bs1, s1)" by force
  note ih = Cons.IH[OF l]
  show ?case
    using Cons.prems ih l by (auto split: if_splits)
qed

lemma bulletsVsEnemiesLoop_foreign:
  "\<forall>b\<in>set bs. \<not> isPlayerBullet b \<Longrightarrow> bulletsVsEnemiesLoop bs s = (bs, s)"
  by (induction bs) simp_all

lemma bulletsVsPlayerLoop_own:
  "\<forall>b\<in>set bs. isPlayerBullet b \<Longrightarrow> bulletsVsPlayerLoop bs s = (bs, s)"
  by (induction bs) simp_all

lemma bulletsVsPlayer_enemies: "enemies (bulletsVsPlayer s) = enemies s"
  by (rule bulletsVsPlayer_inv[of "\<lambda>s'. enemies s' = enemies s"])
    (simp_all add: bulletHit_def Let_def)

lemma bulletsVsEnemies_player: "player (bulletsVsEnemies s) = player s"
  by (rule bulletsVsEnemies_inv[of "\<lambda>s'. player s' = player s"])
    (simp_all add: hitEnemy_wave)

text \<open>
  C10. The bullets-vs-enemies pass acts on player-fired bullets only: its resulting
  state is the one it computes from the player-fired bullets alone, and it keeps every
  enemy-fired bullet. The bullets-vs-player pass acts on enemy-fired bullets only: its
  resulting state is the one it computes from the enemy-fired bullets alone, and it
  keeps every player-fired bullet. So with no player-fired bullet the first pass
  changes nothing, with no enemy-fired bullet the second changes nothing; and the
  first never writes the player, the second never writes the enemies.
\<close>

theorem bullet_ownership_isolates:
  "snd (bulletsVsEnemiesLoop bs s) = snd (bulletsVsEnemiesLoop (filter isPlayerBullet bs) s)
   \<and> filter (\<lambda>b. \<not> isPlayerBullet b) (fst (bulletsVsEnemiesLoop bs s))
       = filter (\<lambda>b. \<not> isPlayerBullet b) bs
   \<and> snd (bulletsVsPlayerLoop bs s)
       = snd (bulletsVsPlayerLoop (filter (\<lambda>b. \<not> isPlayerBullet b) bs) s)
   \<and> filter isPlayerBullet (fst (bulletsVsPlayerLoop bs s)) = filter isPlayerBullet bs
   \<and> ((\<forall>b\<in>set bs. \<not> isPlayerBullet b) \<longrightarrow> bulletsVsEnemiesLoop bs s = (bs, s))
   \<and> ((\<forall>b\<in>set bs. isPlayerBullet b) \<longrightarrow> bulletsVsPlayerLoop bs s = (bs, s))
   \<and> enemies (bulletsVsPlayer s) = enemies s
   \<and> player (bulletsVsEnemies s) = player s"
proof -
  obtain bs1 s1 where l1: "bulletsVsEnemiesLoop bs s = (bs1, s1)" by force
  obtain bs2 s2 where l2: "bulletsVsPlayerLoop bs s = (bs2, s2)" by force
  show ?thesis
    using bulletsVsEnemiesLoop_filter[OF l1] bulletsVsPlayerLoop_filter[OF l2]
      bulletsVsEnemiesLoop_foreign[of bs s] bulletsVsPlayerLoop_own[of bs s]
      bulletsVsPlayer_enemies[of s] bulletsVsEnemies_player[of s]
    by (simp add: l1 l2)
qed

text \<open>
  The witness: an enemy-fired bullet on top of an enemy, and a player-fired bullet on
  top of the vulnerable player; neither pass reacts.
\<close>

theorem bullet_ownership_isolates_witness:
  "\<not> isPlayerBullet (bulletAt 400 300 10 False)
   \<and> distance (pos (bulletAt 400 300 10 False)) (pos (enemyAt 400 300 20 20))
       < fl (radius (bulletAt 400 300 10 False) + radius (enemyAt 400 300 20 20))
   \<and> bulletsVsEnemiesLoop [bulletAt 400 300 10 False]
        (sim0\<lparr> enemies := [enemyAt 400 300 20 20] \<rparr>)
       = ([bulletAt 400 300 10 False], sim0\<lparr> enemies := [enemyAt 400 300 20 20] \<rparr>)
   \<and> isPlayerBullet (bulletAt 400 500 10 True)
   \<and> distance (pos (bulletAt 400 500 10 True)) (pos (player sim0))
       < fl (radius (bulletAt 400 500 10 True) + radius (player sim0))
   \<and> bulletsVsPlayerLoop [bulletAt 400 500 10 True] sim0 = ([bulletAt 400 500 10 True], sim0)"
  using bullet_ownership_isolates[where bs = "[bulletAt 400 300 10 False]"
      and s = "sim0\<lparr> enemies := [enemyAt 400 300 20 20] \<rparr>"]
    bullet_ownership_isolates[where bs = "[bulletAt 400 500 10 True]" and s = sim0]
  by (simp add: bulletAt_def enemyAt_def)

section \<open>The overlap test (C8)\<close>












section \<open>Player movement (C6)\<close>

lemma updatePlayer_vel:
  "X (vel (player (updatePlayer s))) =
     (if ''ArrowLeft'' \<in> keys s \<or> ''KeyA'' \<in> keys s then - speed (player s) else 0) +
     (if ''ArrowRight'' \<in> keys s \<or> ''KeyD'' \<in> keys s then speed (player s) else 0)"
  "Y (vel (player (updatePlayer s))) =
     (if ''ArrowUp'' \<in> keys s \<or> ''KeyW'' \<in> keys s then - speed (player s) else 0) +
     (if ''ArrowDown'' \<in> keys s \<or> ''KeyS'' \<in> keys s then speed (player s) else 0)"
  by (simp_all add: updatePlayer_def Let_def)

lemma updatePlayer_pos:
  "X (pos (player (updatePlayer s))) =
     max (radius (player s)) (min (canvas_width s - radius (player s))
       (X (pos (player s)) + X (vel (player (updatePlayer s)))))"
  "Y (pos (player (updatePlayer s))) =
     max (radius (player s)) (min (canvas_height s - radius (player s))
       (Y (pos (player s)) + Y (vel (player (updatePlayer s)))))"
  "radius (player (updatePlayer s)) = radius (player s)"
  by (simp_all add: updatePlayer_def Let_def split del: if_split)

lemma applyPowerUp_entity:
  "pos (applyPowerUp k p) = pos p" "radius (applyPowerUp k p) = radius p"
  by (cases k; simp)+

lemma combat_position:
  "pos (player (combat s)) = pos (player s) \<and> radius (player (combat s)) = radius (player s)
   \<and> canvas_width (combat s) = canvas_width s \<and> canvas_height (combat s) = canvas_height s"
proof -
  let ?P = "\<lambda>s'. pos (player s') = pos (player s) \<and> radius (player s') = radius (player s)
     \<and> canvas_width s' = canvas_width s \<and> canvas_height s' = canvas_height s"
  have 1: "?P (bulletsVsEnemies s)"
    by (rule bulletsVsEnemies_inv[of ?P]) (simp_all add: hitEnemy_def Let_def)
  have 2: "?P (bulletsVsPlayer (bulletsVsEnemies s))"
    by (rule bulletsVsPlayer_inv[of ?P, OF _ _ 1]) (simp_all add: bulletHit_def Let_def)
  have 3: "?P (playerVsEnemies (bulletsVsPlayer (bulletsVsEnemies s)))"
    by (rule playerVsEnemies_inv[of ?P, OF _ _ 2]) (simp_all add: bodyHit_def Let_def)
  have 4: "?P (playerVsPowerUps (playerVsEnemies (bulletsVsPlayer (bulletsVsEnemies s))))"
    by (rule playerVsPowerUps_inv[of ?P, OF _ _ 3])
      (simp_all add: pickUp_def Let_def applyPowerUp_entity)
  then show ?thesis by (simp add: combat_def)
qed

lemma waveManagement_player: "player (waveManagement s) = player s"
  by (simp add: waveManagement_def spawnWave_def Let_def)

lemma movement_position:
  "pos (player (movement t dt s)) = pos (player (updatePlayer s))"
  "radius (player (movement t dt s)) = radius (player s)"
  "canvas_width (movement t dt s) = canvas_width s"
  "canvas_height (movement t dt s) = canvas_height s"
proof -
  have u: "\<exists>bs l. shooting t (updatePlayer s) =
      (updatePlayer s)\<lparr> bullets := bs, player := (player (updatePlayer s))\<lparr> lastFired := l \<rparr> \<rparr>"
    by (rule shooting_shape)
  then obtain bs l where 2: "shooting t (updatePlayer s) =
      (updatePlayer s)\<lparr> bullets := bs, player := (player (updatePlayer s))\<lparr> lastFired := l \<rparr> \<rparr>"
    by blast
  let ?s2 = "shooting t (updatePlayer s)"
  obtain i where 3: "tickInvulnerable dt ?s2 = ?s2\<lparr> player := (player ?s2)\<lparr> invulnerable := i \<rparr> \<rparr>"
    using tickInvulnerable_shape by blast
  show "pos (player (movement t dt s)) = pos (player (updatePlayer s))"
    unfolding movement_def updatePowerUps_def updateParticles_def updateBullets_def
    by (simp add: 3) (simp add: 2)
  show "radius (player (movement t dt s)) = radius (player s)"
    "canvas_width (movement t dt s) = canvas_width s"
    "canvas_height (movement t dt s) = canvas_height s"
    using movement_shape[of t dt s] by auto
qed

text \<open>
  C6. The position does not always lie in \<open>[radius, bound - radius]\<close>. The canvas takes
  the size of the window (lines 81-82 and 611-612), and line 253 applies the lower
  clamp last: on a canvas 20 wide the player of radius 15 is put at \<open>x = 15\<close>, above
  \<open>bound - radius = 5\<close>.
\<close>

theorem narrow_playfield_counterexample:
  "canvas_width narrowCanvas = 20
   \<and> radius (player narrowCanvas) = 15
   \<and> canvas_width narrowCanvas - radius (player narrowCanvas) = 5
   \<and> X (pos (player (updatePlayer narrowCanvas))) = 15
   \<and> \<not> X (pos (player (updatePlayer narrowCanvas)))
         \<le> canvas_width narrowCanvas - radius (player narrowCanvas)"
  by (simp add: narrowCanvas_def updatePlayer_def Let_def)

text \<open>
  C6, amended. In the movement update of the player the velocity on each axis is the
  sum of \<open>- speed\<close> for the negative intent (left, up) and \<open>+ speed\<close> for the positive
  one (right, down), each counted when one of its two keys is down, and 0 without
  intent; the new position is the old one plus the velocity, clamped by
  \<open>max radius (min (bound - radius) _)\<close>. So the position is at least \<open>radius\<close> on both
  axes; it is at most \<open>bound - radius\<close> on an axis whose playfield is at least one
  diameter wide, respectively high (\<open>radius \<le> bound - radius\<close>), and it is \<open>radius\<close>
  on an axis whose playfield is narrower. Nothing else in a frame moves the player:
  after a whole frame that runs, the position is the one the movement update computed.
\<close>

theorem player_stays_in_playfield:
  "X (vel (player (updatePlayer s))) =
     (if ''ArrowLeft'' \<in> keys s \<or> ''KeyA'' \<in> keys s then - speed (player s) else 0) +
     (if ''ArrowRight'' \<in> keys s \<or> ''KeyD'' \<in> keys s then speed (player s) else 0)
   \<and> Y (vel (player (updatePlayer s))) =
     (if ''ArrowUp'' \<in> keys s \<or> ''KeyW'' \<in> keys s then - speed (player s) else 0) +
     (if ''ArrowDown'' \<in> keys s \<or> ''KeyS'' \<in> keys s then speed (player s) else 0)
   \<and> X (pos (player (updatePlayer s))) =
     max (radius (player s)) (min (canvas_width s - radius (player s))
       (X (pos (player s)) + X (vel (player (updatePlayer s)))))
   \<and> Y (pos (player (updatePlayer s))) =
     max (radius (player s)) (min (canvas_height s - radius (player s))
       (Y (pos (player s)) + Y (vel (player (updatePlayer s)))))
   \<and> radius (player (updatePlayer s)) = radius (player s)
   \<and> radius (player s) \<le> X (pos (player (updatePlayer s)))
   \<and> radius (player s) \<le> Y (pos (player (updatePlayer s)))
   \<and> (radius (player s) \<le> canvas_width s - radius (player s) \<longrightarrow>
        X (pos (player (updatePlayer s))) \<le> canvas_width s - radius (player s))
   \<and> (radius (player s) \<le> canvas_height s - radius (player s) \<longrightarrow>
        Y (pos (player (updatePlayer s))) \<le> canvas_height s - radius (player s))
   \<and> (canvas_width s - radius (player s) < radius (player s) \<longrightarrow>
        X (pos (player (updatePlayer s))) = radius (player s))
   \<and> (canvas_height s - radius (player s) < radius (player s) \<longrightarrow>
        Y (pos (player (updatePlayer s))) = radius (player s))
   \<and> (\<not> paused s \<and> \<not> gameOver s \<longrightarrow>
        pos (player (gameLoop t s)) = pos (player (updatePlayer s)) \<and>
        radius (player (gameLoop t s)) = radius (player s))"
proof -
  have g: "\<not> paused s \<and> \<not> gameOver s \<longrightarrow>
        pos (player (gameLoop t s)) = pos (player (updatePlayer s)) \<and>
        radius (player (gameLoop t s)) = radius (player s)"
  proof
    assume a: "\<not> paused s \<and> \<not> gameOver s"
    let ?s0 = "s\<lparr> lastTime := t \<rparr>"
    have u: "player (updatePlayer ?s0) = player (updatePlayer s)"
      by (simp add: updatePlayer_def Let_def)
    have "gameLoop t s = waveManagement (combat (movement t (t - lastTime s) ?s0))"
      using a by (simp add: gameLoop_def Let_def)
    then show "pos (player (gameLoop t s)) = pos (player (updatePlayer s)) \<and>
        radius (player (gameLoop t s)) = radius (player s)"
      using combat_position[of "movement t (t - lastTime s) ?s0"]
        movement_position[of t "t - lastTime s" ?s0]
      by (simp add: waveManagement_player u)
  qed
  have lo: "radius (player s) \<le> X (pos (player (updatePlayer s)))"
    "radius (player s) \<le> Y (pos (player (updatePlayer s)))"
    by (simp_all only: updatePlayer_pos max.cobounded1)
  have hx: "radius (player s) \<le> canvas_width s - radius (player s) \<longrightarrow>
        X (pos (player (updatePlayer s))) \<le> canvas_width s - radius (player s)"
    by (simp only: updatePlayer_pos(1)) simp
  have hy: "radius (player s) \<le> canvas_height s - radius (player s) \<longrightarrow>
        Y (pos (player (updatePlayer s))) \<le> canvas_height s - radius (player s)"
    by (simp only: updatePlayer_pos(2)) simp
  have nx: "canvas_width s - radius (player s) < radius (player s) \<longrightarrow>
        X (pos (player (updatePlayer s))) = radius (player s)"
    by (simp only: updatePlayer_pos(1)) simp
  have ny: "canvas_height s - radius (player s) < radius (player s) \<longrightarrow>
        Y (pos (player (updatePlayer s))) = radius (player s)"
    by (simp only: updatePlayer_pos(2)) simp
  show ?thesis
    by (intro conjI updatePlayer_vel updatePlayer_pos lo hx hy nx ny g)
qed

text \<open>
  The witness: the initial state on the 800 by 600 playfield with right and down held,
  and the initial state on a canvas 20 wide and 20 high.
\<close>

theorem player_stays_in_playfield_witness:
  "radius (player (sim0\<lparr> keys := {''ArrowRight'', ''KeyS''} \<rparr>))
     \<le> canvas_width (sim0\<lparr> keys := {''ArrowRight'', ''KeyS''} \<rparr>)
         - radius (player (sim0\<lparr> keys := {''ArrowRight'', ''KeyS''} \<rparr>))
   \<and> radius (player (sim0\<lparr> keys := {''ArrowRight'', ''KeyS''} \<rparr>))
     \<le> canvas_height (sim0\<lparr> keys := {''ArrowRight'', ''KeyS''} \<rparr>)
         - radius (player (sim0\<lparr> keys := {''ArrowRight'', ''KeyS''} \<rparr>))
   \<and> \<not> paused (sim0\<lparr> keys := {''ArrowRight'', ''KeyS''} \<rparr>)
   \<and> \<not> gameOver (sim0\<lparr> keys := {''ArrowRight'', ''KeyS''} \<rparr>)
   \<and> vel (player (updatePlayer (sim0\<lparr> keys := {''ArrowRight'', ''KeyS''} \<rparr>)))
       = \<lparr> X = 5, Y = 5 \<rparr>
   \<and> pos (player (gameLoop 16 (sim0\<lparr> keys := {''ArrowRight'', ''KeyS''} \<rparr>)))
       = \<lparr> X = 405, Y = 505 \<rparr>
   \<and> X (pos (player (updatePlayer (sim0\<lparr> keys := {''ArrowRight'', ''KeyS''} \<rparr>)))) \<le> 800 - 15
   \<and> Y (pos (player (updatePlayer (sim0\<lparr> keys := {''ArrowRight'', ''KeyS''} \<rparr>)))) \<le> 600 - 15
   \<and> canvas_width (narrowCanvas\<lparr> canvas_height := 20 \<rparr>)
        - radius (player (narrowCanvas\<lparr> canvas_height := 20 \<rparr>))
       < radius (player (narrowCanvas\<lparr> canvas_height := 20 \<rparr>))
   \<and> canvas_height (narrowCanvas\<lparr> canvas_height := 20 \<rparr>)
        - radius (player (narrowCanvas\<lparr> canvas_height := 20 \<rparr>))
       < radius (player (narrowCanvas\<lparr> canvas_height := 20 \<rparr>))
   \<and> pos (player (updatePlayer (narrowCanvas\<lparr> canvas_height := 20 \<rparr>))) = \<lparr> X = 15, Y = 15 \<rparr>"
proof -
  let ?A = "sim0\<lparr> keys := {''ArrowRight'', ''KeyS''} \<rparr>"
  let ?N = "narrowCanvas\<lparr> canvas_height := 20 \<rparr>"
  have a: "radius (player ?A) = 15" "canvas_width ?A = 800" "canvas_height ?A = 600"
    "\<not> paused ?A" "\<not> gameOver ?A" "speed (player ?A) = 5" "pos (player ?A) = \<lparr> X = 400, Y = 500 \<rparr>"
    "keys ?A = {''ArrowRight'', ''KeyS''}"
    by simp_all
  have n: "radius (player ?N) = 15" "canvas_width ?N = 20" "canvas_height ?N = 20"
    by (simp_all add: narrowCanvas_def)
  note A = player_stays_in_playfield[where s = ?A and t = 16]
  note N = player_stays_in_playfield[where s = ?N and t = 16]
  have v: "X (vel (player (updatePlayer ?A))) = 5" "Y (vel (player (updatePlayer ?A))) = 5"
    using A[THEN conjunct1] A[THEN conjunct2, THEN conjunct1] by (simp_all add: a)
  have p: "X (pos (player (updatePlayer ?A))) = 405" "Y (pos (player (updatePlayer ?A))) = 505"
    using A[THEN conjunct2, THEN conjunct2, THEN conjunct1]
      A[THEN conjunct2, THEN conjunct2, THEN conjunct2, THEN conjunct1]
    by (simp_all add: a v)
  have g: "pos (player (gameLoop 16 ?A)) = pos (player (updatePlayer ?A))"
    using A a(4,5) by blast
  have m: "X (pos (player (updatePlayer ?N))) = 15" "Y (pos (player (updatePlayer ?N))) = 15"
    using N n by simp_all
  have eq: "\<And>w x y. X w = x \<Longrightarrow> Y w = y \<Longrightarrow> w = \<lparr> X = x, Y = y \<rparr>"
    by simp
  show ?thesis
    using eq[OF v] eq[OF p, folded g] eq[OF m] p by (simp add: a narrowCanvas_def)
qed
section \<open>Power-up clamps (C7)\<close>

lemma applyPowerUp_bounds:
  "min 50 (fireRate p) \<le> fireRate (applyPowerUp k p)"
  "speed (applyPowerUp k p) \<le> max 8 (speed p)"
  by (cases k; simp)+

lemma fold_applyPowerUp_bounds:
  "min 50 (fireRate p) \<le> fireRate (fold applyPowerUp ks p) \<and>
   speed (fold applyPowerUp ks p) \<le> max 8 (speed p)"
proof (induction ks arbitrary: p)
  case Nil
  then show ?case by simp
next
  case (Cons k ks)
  have a: "min 50 (fireRate p) \<le> min 50 (fireRate (applyPowerUp k p))"
    by (cases k) simp_all
  have b: "max 8 (speed (applyPowerUp k p)) \<le> max 8 (speed p)"
    by (cases k) simp_all
  show ?case
    using Cons.IH[of "applyPowerUp k p"] a b by (simp only: fold_simps) linarith
qed

lemma fold_applyPowerUp_floor:
  "FireRate \<in> set ks \<Longrightarrow> 50 \<le> fireRate (fold applyPowerUp ks p)"
proof (induction ks arbitrary: p)
  case Nil
  then show ?case by simp
next
  case (Cons k ks)
  show ?case
  proof (cases "k = FireRate")
    case True
    have "50 \<le> min 50 (fireRate (applyPowerUp FireRate p))" by simp
    then show ?thesis
      using fold_applyPowerUp_bounds[of "applyPowerUp FireRate p" ks] True
      by (simp only: fold_simps) linarith
  next
    case False
    then show ?thesis using Cons by simp
  qed
qed

lemma fold_applyPowerUp_ceiling:
  "Speed \<in> set ks \<Longrightarrow> speed (fold applyPowerUp ks p) \<le> 8"
proof (induction ks arbitrary: p)
  case Nil
  then show ?case by simp
next
  case (Cons k ks)
  show ?case
  proof (cases "k = Speed")
    case True
    have "max 8 (speed (applyPowerUp Speed p)) \<le> 8" by simp
    then show ?thesis
      using fold_applyPowerUp_bounds[of "applyPowerUp Speed p" ks] True
      by (simp only: fold_simps) linarith
  next
    case False
    then show ?thesis using Cons by simp
  qed
qed

lemma combat_stats:
  "50 \<le> fireRate (player s) \<and> speed (player s) \<le> 8 \<Longrightarrow>
   50 \<le> fireRate (player (combat s)) \<and> speed (player (combat s)) \<le> 8"
proof -
  let ?P = "\<lambda>s'::Sim. 50 \<le> fireRate (player s') \<and> speed (player s') \<le> 8"
  assume 0: "?P s"
  have 1: "?P (bulletsVsEnemies s)"
    by (rule bulletsVsEnemies_inv[of ?P, OF _ _ _ 0]) (simp_all add: hitEnemy_wave)
  have 2: "?P (bulletsVsPlayer (bulletsVsEnemies s))"
    by (rule bulletsVsPlayer_inv[of ?P, OF _ _ 1]) (simp_all add: bulletHit_player)
  have 3: "?P (playerVsEnemies (bulletsVsPlayer (bulletsVsEnemies s)))"
    by (rule playerVsEnemies_inv[of ?P, OF _ _ 2]) (simp_all add: bodyHit_player)
  have p: "\<And>u s. ?P s \<Longrightarrow> ?P (pickUp u s)"
  proof -
    fix u and s :: Sim assume "?P s"
    then show "?P (pickUp u s)"
      using applyPowerUp_bounds[where p = "player s" and k = "pu_type u"]
      by (simp add: pickUp_player)
  qed
  have 4: "?P (playerVsPowerUps (playerVsEnemies (bulletsVsPlayer (bulletsVsEnemies s))))"
    by (rule playerVsPowerUps_inv[of ?P, OF p _ 3]) simp_all
  then show ?thesis by (simp add: combat_def)
qed

lemma gameLoop_stats:
  assumes "50 \<le> fireRate (player s) \<and> speed (player s) \<le> 8"
  shows "50 \<le> fireRate (player (gameLoop t s)) \<and> speed (player (gameLoop t s)) \<le> 8"
proof (cases "paused s \<or> gameOver s")
  case True
  then show ?thesis using assms by (auto simp add: gameLoop_def Let_def)
next
  case False
  let ?s0 = "s\<lparr> lastTime := t \<rparr>"
  let ?m = "movement t (t - lastTime s) ?s0"
  obtain v q l i es bs ps us where
    "?m = ?s0\<lparr> player := (player ?s0)\<lparr> vel := v, pos := q, lastFired := l, invulnerable := i \<rparr>,
          enemies := es, bullets := bs, particles := ps, powerUps := us \<rparr>"
    using movement_shape[of t "t - lastTime s" ?s0] by blast
  then have "fireRate (player ?m) = fireRate (player s)" "speed (player ?m) = speed (player s)"
    by simp_all
  then have "50 \<le> fireRate (player ?m) \<and> speed (player ?m) \<le> 8" using assms by simp
  then have "50 \<le> fireRate (player (combat ?m)) \<and> speed (player (combat ?m)) \<le> 8"
    by (rule combat_stats)
  moreover have "gameLoop t s = waveManagement (combat ?m)"
    using False by (simp add: gameLoop_def Let_def)
  ultimately show ?thesis by (simp add: waveManagement_player)
qed

text \<open>
  C7. A firerate power-up stores \<open>max 50 (fireRate - 15)\<close>, a speed power-up
  \<open>min 8 (speed + 0.3)\<close>, a health power-up \<open>min maxHealth (health + 20)\<close>, and a
  pick-up applies exactly that to the player. For every starting player and every
  number of pick-ups, after one or more firerate power-ups the fire interval is at
  least 50, and after one or more speed power-ups the speed is at most 8. More
  generally, for every sequence of power-ups of any kinds the interval never falls
  below the smaller of 50 and its starting value and the speed never exceeds the
  larger of 8 and its starting value; and a whole frame keeps an interval of at least
  50 and a speed of at most 8.
\<close>

theorem power_up_clamps:
  "fireRate (applyPowerUp FireRate p) = max 50 (fireRate p - 15)
   \<and> speed (applyPowerUp Speed p) = min 8 (speed p + 0.3)
   \<and> health (applyPowerUp Health p) = min (maxHealth p) (health p + 20)
   \<and> player (pickUp u s) = applyPowerUp (pu_type u) (player s)
   \<and> 50 \<le> fireRate (fold applyPowerUp (replicate (Suc n) FireRate) p)
   \<and> speed (fold applyPowerUp (replicate (Suc n) Speed) p) \<le> 8
   \<and> min 50 (fireRate p) \<le> fireRate (fold applyPowerUp ks p)
   \<and> speed (fold applyPowerUp ks p) \<le> max 8 (speed p)
   \<and> (FireRate \<in> set ks \<longrightarrow> 50 \<le> fireRate (fold applyPowerUp ks p))
   \<and> (Speed \<in> set ks \<longrightarrow> speed (fold applyPowerUp ks p) \<le> 8)
   \<and> (50 \<le> fireRate (player s) \<and> speed (player s) \<le> 8 \<longrightarrow>
        50 \<le> fireRate (player (gameLoop t s)) \<and> speed (player (gameLoop t s)) \<le> 8)"
proof -
  have 5: "50 \<le> fireRate (fold applyPowerUp (replicate (Suc n) FireRate) p)"
    by (rule fold_applyPowerUp_floor) simp
  have 6: "speed (fold applyPowerUp (replicate (Suc n) Speed) p) \<le> 8"
    by (rule fold_applyPowerUp_ceiling) simp
  show ?thesis
    using 5 6 fold_applyPowerUp_bounds[of p ks] fold_applyPowerUp_floor[of ks p]
      fold_applyPowerUp_ceiling[of ks p] gameLoop_stats[of s t]
    by (simp add: pickUp_player)
qed

text \<open>
  The witness: from the initial player (interval 150, speed 5) seven firerate
  power-ups, with a damage power-up among them, reach the floor of 50 exactly, and
  eleven speed power-ups stay at or below 8.
\<close>

theorem power_up_clamps_witness:
  "FireRate \<in> set [FireRate, Damage, FireRate, FireRate, FireRate, FireRate, FireRate, FireRate]
   \<and> fireRate (fold applyPowerUp
        [FireRate, Damage, FireRate, FireRate, FireRate, FireRate, FireRate, FireRate]
        (player sim0)) = 50
   \<and> Speed \<in> set (replicate 11 Speed)
   \<and> speed (fold applyPowerUp (replicate 11 Speed) (player sim0)) \<le> 8
   \<and> 50 \<le> fireRate (player sim0) \<and> speed (player sim0) \<le> 8
   \<and> 50 \<le> fireRate (player (gameLoop 16 sim0)) \<and> speed (player (gameLoop 16 sim0)) \<le> 8"
  using power_up_clamps[where ks = "[FireRate, Damage, FireRate, FireRate, FireRate, FireRate,
        FireRate, FireRate]" and p = "player sim0" and s = sim0 and t = 16]
    power_up_clamps[where ks = "replicate 11 Speed" and p = "player sim0"]
  by simp

section \<open>Wave management (C2)\<close>

lemma waveManagement_advance:
  assumes "waveProgress s \<ge> enemiesThisWave s" and "enemies s = []"
  shows "wave (waveManagement s) = wave s + 1"
    and "enemiesThisWave (waveManagement s) = 5 + 2 * (wave s + 1)"
    and "waveProgress (waveManagement s) = 0"
    and "scheduled (waveManagement s) =
           scheduled s @ map (\<lambda>i. (real i * 500, wave s + 1)) [0..<nat (5 + 2 * (wave s + 1))]"
    and "enemies (waveManagement s) = []"
  using assms by (simp_all add: waveManagement_def spawnWave_def Let_def mult.commute)

lemma waveManagement_wave:
  "wave (waveManagement s) = wave s \<or>
   (wave (waveManagement s) = wave s + 1 \<and> waveProgress (waveManagement s) = 0 \<and>
    enemiesThisWave (waveManagement s) = 5 + 2 * (wave s + 1))"
  by (simp add: waveManagement_def spawnWave_def Let_def mult.commute)

lemma waveManagement_enemies: "enemies (waveManagement s) = enemies s"
  by (simp add: waveManagement_def spawnWave_def Let_def)

lemma waveManagement_once:
  assumes "1 \<le> wave s"
  shows "waveManagement (waveManagement s) = waveManagement s"
proof (cases "waveProgress s \<ge> enemiesThisWave s \<and> enemies s = []")
  case True
  then have "waveProgress (waveManagement s) < enemiesThisWave (waveManagement s)"
    using assms by (simp add: waveManagement_advance)
  then show ?thesis by (intro waveManagement_idle disjI1)
next
  case False
  then have "waveManagement s = s" by (auto simp add: waveManagement_def)
  then show ?thesis by simp
qed

lemma gameLoop_running:
  assumes "\<not> paused s" and "\<not> gameOver s"
  shows "\<exists>c. gameLoop t s = waveManagement c \<and> wave c = wave s \<and>
        waveProgress c = waveProgress s \<and> enemiesThisWave c = enemiesThisWave s \<and>
        scheduled c = scheduled s"
proof -
  let ?m = "movement t (t - lastTime s) (s\<lparr> lastTime := t \<rparr>)"
  have g: "gameLoop t s = waveManagement (combat ?m)"
    using assms by (simp add: gameLoop_def Let_def)
  have "wave (combat ?m) = wave s \<and> waveProgress (combat ?m) = waveProgress s \<and>
        enemiesThisWave (combat ?m) = enemiesThisWave s \<and> scheduled (combat ?m) = scheduled s"
    using combat_wave[of ?m] movement_wave[of t "t - lastTime s" "s\<lparr> lastTime := t \<rparr>"]
    by simp
  then show ?thesis using g by blast
qed

lemma gameLoop_cases:
  "gameLoop t s = s\<lparr> lastTime := t \<rparr> \<or>
   (\<exists>c. gameLoop t s = waveManagement c \<and> wave c = wave s \<and>
        waveProgress c = waveProgress s \<and> enemiesThisWave c = enemiesThisWave s \<and>
        scheduled c = scheduled s)"
proof (cases "paused s \<or> gameOver s")
  case True
  then show ?thesis by (auto simp add: gameLoop_def Let_def)
next
  case False
  then show ?thesis using gameLoop_running[of s t] by blast
qed

lemma gameLoop_advance:
  assumes "\<not> paused s" and "\<not> gameOver s" and "waveProgress s \<ge> enemiesThisWave s"
    and "enemies (gameLoop t s) = []"
  shows "wave (gameLoop t s) = wave s + 1"
    and "enemiesThisWave (gameLoop t s) = 5 + 2 * (wave s + 1)"
    and "waveProgress (gameLoop t s) = 0"
    and "scheduled (gameLoop t s) =
           scheduled s @ map (\<lambda>i. (real i * 500, wave s + 1)) [0..<nat (5 + 2 * (wave s + 1))]"
proof -
  obtain c where c: "gameLoop t s = waveManagement c" "wave c = wave s"
    "waveProgress c = waveProgress s" "enemiesThisWave c = enemiesThisWave s"
    "scheduled c = scheduled s"
    using gameLoop_running[OF assms(1,2), of t] by blast
  have e: "enemies c = []" using assms(4) c(1) by (simp add: waveManagement_enemies)
  have p: "waveProgress c \<ge> enemiesThisWave c" using assms(3) c by simp
  show "wave (gameLoop t s) = wave s + 1"
    "enemiesThisWave (gameLoop t s) = 5 + 2 * (wave s + 1)"
    "waveProgress (gameLoop t s) = 0"
    "scheduled (gameLoop t s) =
           scheduled s @ map (\<lambda>i. (real i * 500, wave s + 1)) [0..<nat (5 + 2 * (wave s + 1))]"
    using waveManagement_advance[OF p e] c by simp_all
qed

lemma gameLoop_no_advance:
  assumes "enemies (gameLoop t s) \<noteq> [] \<or> waveProgress s < enemiesThisWave s"
  shows "wave (gameLoop t s) = wave s \<and> waveProgress (gameLoop t s) = waveProgress s
     \<and> enemiesThisWave (gameLoop t s) = enemiesThisWave s
     \<and> scheduled (gameLoop t s) = scheduled s"
  using gameLoop_cases[of t s]
proof (elim disjE exE conjE)
  assume "gameLoop t s = s\<lparr> lastTime := t \<rparr>"
  then show ?thesis by simp
next
  fix c
  assume c: "gameLoop t s = waveManagement c" "wave c = wave s"
    "waveProgress c = waveProgress s" "enemiesThisWave c = enemiesThisWave s"
    "scheduled c = scheduled s"
  have "waveProgress c < enemiesThisWave c \<or> enemies c \<noteq> []"
    using assms c by (auto simp add: waveManagement_enemies)
  then have "waveManagement c = c" by (rule waveManagement_idle)
  then show ?thesis using c by simp
qed

lemma gameLoop_wave_step:
  "wave (gameLoop t s) = wave s \<or>
   (wave (gameLoop t s) = wave s + 1 \<and> waveProgress (gameLoop t s) = 0 \<and>
    enemiesThisWave (gameLoop t s) = 5 + 2 * (wave s + 1) \<and>
    waveProgress s \<ge> enemiesThisWave s \<and> enemies (gameLoop t s) = [])"
proof (cases "enemies (gameLoop t s) \<noteq> [] \<or> waveProgress s < enemiesThisWave s")
  case True
  then show ?thesis using gameLoop_no_advance[of t s] by blast
next
  case False
  show ?thesis
    using gameLoop_cases[of t s]
  proof (elim disjE exE conjE)
    assume "gameLoop t s = s\<lparr> lastTime := t \<rparr>"
    then show ?thesis by simp
  next
    fix c
    assume c: "gameLoop t s = waveManagement c" "wave c = wave s"
    show ?thesis
      using waveManagement_wave[of c] c False by auto
  qed
qed

lemma gameLoop_twice:
  assumes "1 \<le> wave s"
  shows "wave (gameLoop t' (gameLoop t s)) \<le> wave s + 1"
proof -
  consider "wave (gameLoop t s) = wave s"
    | "wave (gameLoop t s) = wave s + 1" "waveProgress (gameLoop t s) = 0"
      "enemiesThisWave (gameLoop t s) = 5 + 2 * (wave s + 1)"
    using gameLoop_wave_step[of t s] by blast
  then show ?thesis
  proof cases
    case 1
    then show ?thesis using gameLoop_wave_step[of t' "gameLoop t s"] by auto
  next
    case 2
    then have "waveProgress (gameLoop t s) < enemiesThisWave (gameLoop t s)"
      using assms by simp
    then have "wave (gameLoop t' (gameLoop t s)) = wave (gameLoop t s)"
      using gameLoop_no_advance[of t' "gameLoop t s"] by blast
    then show ?thesis using 2 by simp
  qed
qed

text \<open>Reading and writing the current object; the spawn callback on it.\<close>

lemma enter_fields [simp]:
  "player (enter w) = player (heap w ! current w)"
  "enemies (enter w) = enemies (heap w ! current w)"
  "bullets (enter w) = bullets (heap w ! current w)"
  "particles (enter w) = particles (heap w ! current w)"
  "powerUps (enter w) = powerUps (heap w ! current w)"
  "score (enter w) = score (heap w ! current w)"
  "wave (enter w) = wave (heap w ! current w)"
  "waveProgress (enter w) = waveProgress (heap w ! current w)"
  "enemiesThisWave (enter w) = enemiesThisWave (heap w ! current w)"
  "enemiesKilled (enter w) = enemiesKilled (heap w ! current w)"
  "gameOver (enter w) = gameOver (heap w ! current w)"
  "paused (enter w) = paused (heap w ! current w)"
  "keys (enter w) = keys (heap w ! current w)"
  "canvas_width (enter w) = w_canvas_width w"
  "canvas_height (enter w) = w_canvas_height w"
  "lastTime (enter w) = w_lastTime w"
  "randoms (enter w) = w_randoms w"
  "draws (enter w) = w_draws w"
  "scheduled (enter w) = []"
  by (simp_all add: enter_def GameState.defs Sim.defs)

lemma truncate_fields [simp]:
  "player (GameState.truncate s) = player s"
  "enemies (GameState.truncate s) = enemies s"
  "bullets (GameState.truncate s) = bullets s"
  "particles (GameState.truncate s) = particles s"
  "powerUps (GameState.truncate s) = powerUps s"
  "score (GameState.truncate s) = score s"
  "wave (GameState.truncate s) = wave s"
  "waveProgress (GameState.truncate s) = waveProgress s"
  "enemiesThisWave (GameState.truncate s) = enemiesThisWave s"
  "enemiesKilled (GameState.truncate s) = enemiesKilled s"
  "gameOver (GameState.truncate s) = gameOver s"
  "paused (GameState.truncate s) = paused s"
  "keys (GameState.truncate s) = keys s"
  by (simp_all add: GameState.defs)

lemma spawnEnemy_fields [simp]:
  "length (enemies (spawnEnemy k n s)) = Suc (length (enemies s))"
  "waveProgress (spawnEnemy k n s) = waveProgress s"
  "wave (spawnEnemy k n s) = wave s"
  "enemiesThisWave (spawnEnemy k n s) = enemiesThisWave s"
  "gameOver (spawnEnemy k n s) = gameOver s"
  "player (spawnEnemy k n s) = player s"
  "scheduled (spawnEnemy k n s) = scheduled s"
  "draws (spawnEnemy k n s) = Suc (draws s)"
  "lastTime (spawnEnemy k n s) = lastTime s"
  by (simp_all add: spawnEnemy_def Let_def split: prod.splits)

lemma spawnTimeout_dropped:
  "gameOver (heap w ! current w) \<Longrightarrow> spawnTimeout tm w = w"
  by (simp add: spawnTimeout_def)

lemma spawnTimeout_current:
  assumes "current w < length (heap w)" and "\<not> gameOver (heap w ! current w)"
    and "captured tm = current w"
  shows "length (enemies (heap (spawnTimeout tm w) ! current w))
           = length (enemies (heap w ! current w)) + 1"
    and "waveProgress (heap (spawnTimeout tm w) ! current w)
           = waveProgress (heap w ! current w) + 1"
    and "current (spawnTimeout tm w) = current w"
    and "pending (spawnTimeout tm w) = pending w"
  using assms by (simp_all add: spawnTimeout_def Let_def leave_def)

lemma mount_first_wave:
  "pending (mount width height now rnd) =
     map (\<lambda>i. \<lparr> delay = real i * 500, captured = 0, t_wave = 1 \<rparr>) [0..<7]"
  "enemiesThisWave (heap (mount width height now rnd) ! 0) = 7"
  "current (mount width height now rnd) = 0"
  by (simp_all add: mount_def Let_def leave_def spawnWave_def)

text \<open>
  C2. The wave check of a frame changes nothing while an enemy is alive, whether or not
  the quota is met, and nothing while the quota is not met. When the callbacks have
  counted the quota and no enemy is left, it adds exactly one to the wave number, sets
  the quota to \<open>5 + 2 * N\<close> for the new wave \<open>N\<close>, resets the progress to 0 and
  schedules one callback for each \<open>i\<close> below the quota with delay \<open>i * 500\<close> ms; a
  second check right after it changes nothing (from wave 1 on). The same holds for a
  whole frame: a frame that ends with an enemy alive, or starts with the quota not
  met, keeps the wave number and schedules nothing; a running frame that starts with
  the quota met and ends with no enemy adds exactly one; no frame adds more than one,
  and two frames in a row add at most one together. Each callback that runs on a run
  that is not over, for the object it captured, adds exactly one enemy and one unit of
  progress. At mount the first wave is scheduled the same way: seven callbacks with
  delays 0, 500, ..., 3000.
\<close>

theorem wave_advances_once_per_clearance:
  "(enemies s \<noteq> [] \<longrightarrow> waveManagement s = s)
   \<and> (waveProgress s < enemiesThisWave s \<longrightarrow> waveManagement s = s)
   \<and> (waveProgress s \<ge> enemiesThisWave s \<and> enemies s = [] \<longrightarrow>
        wave (waveManagement s) = wave s + 1 \<and>
        enemiesThisWave (waveManagement s) = 5 + 2 * (wave s + 1) \<and>
        waveProgress (waveManagement s) = 0 \<and>
        scheduled (waveManagement s) =
          scheduled s @
          map (\<lambda>i. (real i * 500, wave s + 1)) [0..<nat (5 + 2 * (wave s + 1))])
   \<and> (1 \<le> wave s \<longrightarrow> waveManagement (waveManagement s) = waveManagement s)
   \<and> (enemies (gameLoop t s) \<noteq> [] \<or> waveProgress s < enemiesThisWave s \<longrightarrow>
        wave (gameLoop t s) = wave s \<and> scheduled (gameLoop t s) = scheduled s)
   \<and> (\<not> paused s \<and> \<not> gameOver s \<and> waveProgress s \<ge> enemiesThisWave s \<and>
       enemies (gameLoop t s) = [] \<longrightarrow>
        wave (gameLoop t s) = wave s + 1 \<and>
        enemiesThisWave (gameLoop t s) = 5 + 2 * (wave s + 1) \<and>
        waveProgress (gameLoop t s) = 0 \<and>
        scheduled (gameLoop t s) =
          scheduled s @
          map (\<lambda>i. (real i * 500, wave s + 1)) [0..<nat (5 + 2 * (wave s + 1))])
   \<and> (wave (gameLoop t s) = wave s \<or> wave (gameLoop t s) = wave s + 1)
   \<and> (1 \<le> wave s \<longrightarrow> wave (gameLoop t' (gameLoop t s)) \<le> wave s + 1)
   \<and> (current w < length (heap w) \<and> \<not> gameOver (heap w ! current w) \<and>
       captured tm = current w \<longrightarrow>
        length (enemies (heap (spawnTimeout tm w) ! current w))
          = length (enemies (heap w ! current w)) + 1 \<and>
        waveProgress (heap (spawnTimeout tm w) ! current w)
          = waveProgress (heap w ! current w) + 1)
   \<and> pending (mount width height now rnd) =
        map (\<lambda>i. \<lparr> delay = real i * 500, captured = 0, t_wave = 1 \<rparr>) [0..<7]
   \<and> enemiesThisWave (heap (mount width height now rnd) ! 0) = 7"
proof (intro conjI impI)
  show "waveManagement s = s" if "enemies s \<noteq> []"
    using that by (intro waveManagement_idle disjI2)
  show "waveManagement s = s" if "waveProgress s < enemiesThisWave s"
    using that by (intro waveManagement_idle disjI1)
  show "waveManagement (waveManagement s) = waveManagement s" if "1 \<le> wave s"
    using that by (rule waveManagement_once)
  show "wave (gameLoop t s) = wave s \<or> wave (gameLoop t s) = wave s + 1"
    using gameLoop_wave_step[of t s] by blast
  show "wave (gameLoop t' (gameLoop t s)) \<le> wave s + 1" if "1 \<le> wave s"
    using that by (rule gameLoop_twice)
  show "pending (mount width height now rnd) =
        map (\<lambda>i. \<lparr> delay = real i * 500, captured = 0, t_wave = 1 \<rparr>) [0..<7]"
    by (rule mount_first_wave)
  show "enemiesThisWave (heap (mount width height now rnd) ! 0) = 7"
    by (rule mount_first_wave)
next
  assume a: "waveProgress s \<ge> enemiesThisWave s \<and> enemies s = []"
  then have p: "waveProgress s \<ge> enemiesThisWave s" and e: "enemies s = []" by simp_all
  show "wave (waveManagement s) = wave s + 1"
    "enemiesThisWave (waveManagement s) = 5 + 2 * (wave s + 1)"
    "waveProgress (waveManagement s) = 0"
    "scheduled (waveManagement s) =
          scheduled s @
          map (\<lambda>i. (real i * 500, wave s + 1)) [0..<nat (5 + 2 * (wave s + 1))]"
    by (rule waveManagement_advance[OF p e])+
next
  assume a: "enemies (gameLoop t s) \<noteq> [] \<or> waveProgress s < enemiesThisWave s"
  show "wave (gameLoop t s) = wave s" "scheduled (gameLoop t s) = scheduled s"
    using gameLoop_no_advance[OF a] by simp_all
next
  assume a: "\<not> paused s \<and> \<not> gameOver s \<and> waveProgress s \<ge> enemiesThisWave s \<and>
       enemies (gameLoop t s) = []"
  then have 1: "\<not> paused s" and 2: "\<not> gameOver s" and 3: "waveProgress s \<ge> enemiesThisWave s"
    and 4: "enemies (gameLoop t s) = []" by simp_all
  show "wave (gameLoop t s) = wave s + 1"
    "enemiesThisWave (gameLoop t s) = 5 + 2 * (wave s + 1)"
    "waveProgress (gameLoop t s) = 0"
    "scheduled (gameLoop t s) =
          scheduled s @
          map (\<lambda>i. (real i * 500, wave s + 1)) [0..<nat (5 + 2 * (wave s + 1))]"
    by (rule gameLoop_advance[OF 1 2 3 4])+
next
  assume a: "current w < length (heap w) \<and> \<not> gameOver (heap w ! current w) \<and>
       captured tm = current w"
  then have 1: "current w < length (heap w)" and 2: "\<not> gameOver (heap w ! current w)"
    and 3: "captured tm = current w" by simp_all
  show "length (enemies (heap (spawnTimeout tm w) ! current w))
          = length (enemies (heap w ! current w)) + 1"
    "waveProgress (heap (spawnTimeout tm w) ! current w)
          = waveProgress (heap w ! current w) + 1"
    by (rule spawnTimeout_current[OF 1 2 3])+
qed

lemma quiet_frame:
  "enemies (gameLoop 16 (sim0\<lparr> waveProgress := 7, enemiesThisWave := 7 \<rparr>)) = []"
proof -
  let ?s = "sim0\<lparr> waveProgress := 7, enemiesThisWave := 7, lastTime := 16 \<rparr>"
  have m: "enemies (movement 16 16 ?s) = []"
    by (simp add: movement_def updatePowerUps_def updateParticles_def updateBullets_def
        updateEnemies_def tickInvulnerable_def shooting_def updatePlayer_def Let_def)
  have b: "bullets (movement 16 16 ?s) = []"
    by (simp add: movement_def updatePowerUps_def updateParticles_def updateBullets_def
        updateEnemies_def tickInvulnerable_def shooting_def updatePlayer_def Let_def)
  have u: "powerUps (movement 16 16 ?s) = []"
    by (simp add: movement_def updatePowerUps_def updateParticles_def updateBullets_def
        updateEnemies_def tickInvulnerable_def shooting_def updatePlayer_def Let_def)
  have c: "enemies (combat (movement 16 16 ?s)) = []"
    by (simp add: combat_def playerVsPowerUps_def playerVsEnemies_def bulletsVsPlayer_def
        bulletsVsEnemies_def m b u)
  show ?thesis
    by (simp add: gameLoop_def Let_def waveManagement_enemies c)
qed

text \<open>
  The witness: the quota of 7 met with an enemy alive (no advance); the initial state
  with the quota not met (no advance, also over a frame); the quota met with no enemy
  (wave 2, quota 9, nine callbacks 500 ms apart; no second advance in the next check
  or frame); and the first callback after mount.
\<close>

theorem wave_advances_once_per_clearance_witness:
  "enemies (sim0\<lparr> enemies := [enemyAt 400 100 20 20], waveProgress := 7, enemiesThisWave := 7 \<rparr>)
     \<noteq> []
   \<and> waveManagement
        (sim0\<lparr> enemies := [enemyAt 400 100 20 20], waveProgress := 7, enemiesThisWave := 7 \<rparr>)
      = sim0\<lparr> enemies := [enemyAt 400 100 20 20], waveProgress := 7, enemiesThisWave := 7 \<rparr>
   \<and> waveProgress sim0 < enemiesThisWave sim0
   \<and> waveManagement sim0 = sim0
   \<and> wave (gameLoop 16 sim0) = 1
   \<and> enemiesThisWave (sim0\<lparr> waveProgress := 7, enemiesThisWave := 7 \<rparr>)
       \<le> waveProgress (sim0\<lparr> waveProgress := 7, enemiesThisWave := 7 \<rparr>)
   \<and> enemies (sim0\<lparr> waveProgress := 7, enemiesThisWave := 7 \<rparr>) = []
   \<and> wave (waveManagement (sim0\<lparr> waveProgress := 7, enemiesThisWave := 7 \<rparr>)) = 2
   \<and> enemiesThisWave (waveManagement (sim0\<lparr> waveProgress := 7, enemiesThisWave := 7 \<rparr>)) = 9
   \<and> waveProgress (waveManagement (sim0\<lparr> waveProgress := 7, enemiesThisWave := 7 \<rparr>)) = 0
   \<and> scheduled (waveManagement (sim0\<lparr> waveProgress := 7, enemiesThisWave := 7 \<rparr>))
       = [(0, 2), (500, 2), (1000, 2), (1500, 2), (2000, 2), (2500, 2), (3000, 2),
          (3500, 2), (4000, 2)]
   \<and> 1 \<le> wave (sim0\<lparr> waveProgress := 7, enemiesThisWave := 7 \<rparr>)
   \<and> waveManagement (waveManagement (sim0\<lparr> waveProgress := 7, enemiesThisWave := 7 \<rparr>))
       = waveManagement (sim0\<lparr> waveProgress := 7, enemiesThisWave := 7 \<rparr>)
   \<and> \<not> paused (sim0\<lparr> waveProgress := 7, enemiesThisWave := 7 \<rparr>)
   \<and> \<not> gameOver (sim0\<lparr> waveProgress := 7, enemiesThisWave := 7 \<rparr>)
   \<and> enemies (gameLoop 16 (sim0\<lparr> waveProgress := 7, enemiesThisWave := 7 \<rparr>)) = []
   \<and> wave (gameLoop 16 (sim0\<lparr> waveProgress := 7, enemiesThisWave := 7 \<rparr>)) = 2
   \<and> wave (gameLoop 32 (gameLoop 16 (sim0\<lparr> waveProgress := 7, enemiesThisWave := 7 \<rparr>))) \<le> 2
   \<and> current (mount 800 600 0 (\<lambda>n. 1 / 2)) < length (heap (mount 800 600 0 (\<lambda>n. 1 / 2)))
   \<and> \<not> gameOver (heap (mount 800 600 0 (\<lambda>n. 1 / 2)) ! current (mount 800 600 0 (\<lambda>n. 1 / 2)))
   \<and> length (enemies (heap (spawnTimeout \<lparr> delay = 0, captured = 0, t_wave = 1 \<rparr>
        (mount 800 600 0 (\<lambda>n. 1 / 2))) ! 0)) = 1
   \<and> waveProgress (heap (spawnTimeout \<lparr> delay = 0, captured = 0, t_wave = 1 \<rparr>
        (mount 800 600 0 (\<lambda>n. 1 / 2))) ! 0) = 1"
proof -
  let ?A = "sim0\<lparr> enemies := [enemyAt 400 100 20 20], waveProgress := 7, enemiesThisWave := 7 \<rparr>"
  let ?B = "sim0\<lparr> waveProgress := 7, enemiesThisWave := 7 \<rparr>"
  let ?W = "mount 800 600 0 (\<lambda>n. 1 / 2)"
  have u9: "[0..<9] = [0, 1, 2, 3, 4, 5, 6, 7, 8::nat]"
    by (simp add: upt_conv_Cons)
  have w: "current ?W = 0" "length (heap ?W) = 1" "\<not> gameOver (heap ?W ! 0)"
    "enemies (heap ?W ! 0) = []" "waveProgress (heap ?W ! 0) = 0"
    by (simp_all add: mount_def Let_def leave_def spawnWave_def initGame_def)
  note TA = wave_advances_once_per_clearance[where s = ?A and t = 16 and t' = 32 and w = ?W
      and tm = "\<lparr> delay = 0, captured = 0, t_wave = 1 \<rparr>"
      and width = 800 and height = 600 and now = 0 and rnd = "\<lambda>n. 1 / 2"]
  note T0 = wave_advances_once_per_clearance[where s = sim0 and t = 16 and t' = 32 and w = ?W
      and tm = "\<lparr> delay = 0, captured = 0, t_wave = 1 \<rparr>"
      and width = 800 and height = 600 and now = 0 and rnd = "\<lambda>n. 1 / 2"]
  note TB = wave_advances_once_per_clearance[where s = ?B and t = 16 and t' = 32 and w = ?W
      and tm = "\<lparr> delay = 0, captured = 0, t_wave = 1 \<rparr>"
      and width = 800 and height = 600 and now = 0 and rnd = "\<lambda>n. 1 / 2"]
  have a: "waveManagement ?A = ?A" using TA by simp
  have z: "waveManagement sim0 = sim0" "wave (gameLoop 16 sim0) = 1" using T0 by simp_all
  have b: "wave (waveManagement ?B) = 2" "enemiesThisWave (waveManagement ?B) = 9"
    "waveProgress (waveManagement ?B) = 0"
    "scheduled (waveManagement ?B)
       = [(0, 2), (500, 2), (1000, 2), (1500, 2), (2000, 2), (2500, 2), (3000, 2),
          (3500, 2), (4000, 2)]"
    "waveManagement (waveManagement ?B) = waveManagement ?B"
    using TB u9 by simp_all
  have g: "wave (gameLoop 16 ?B) = 2" "wave (gameLoop 32 (gameLoop 16 ?B)) \<le> 2"
    using TB quiet_frame by simp_all
  have t: "length (enemies (heap (spawnTimeout \<lparr> delay = 0, captured = 0, t_wave = 1 \<rparr> ?W) ! 0)) = 1"
    "waveProgress (heap (spawnTimeout \<lparr> delay = 0, captured = 0, t_wave = 1 \<rparr> ?W) ! 0) = 1"
    using TB w by simp_all
  show ?thesis
    using a z b g t w quiet_frame by simp
qed

section \<open>Spawn callbacks after game over (C9)\<close>

text \<open>
  The guard of the callback reads the flag of the object that is current when the
  callback runs. While the finished run is still the current object, the callback
  returns at the guard and the world stays as it is; the timer service only forgets
  the callback.
\<close>

lemma spawn_dropped_while_over:
  assumes "gameOver (heap w ! current w)"
  shows "spawnTimeout tm w = w"
    and "k < length (pending w) \<Longrightarrow>
         fire k w = w\<lparr> pending := take k (pending w) @ drop (Suc k) (pending w) \<rparr>"
  using assms by (simp_all add: fire_def spawnTimeout_def)

lemma endedRun_fields:
  "current endedRun = 0" "length (heap endedRun) = 1"
  "gameOver (heap endedRun ! 0)" "waveProgress (heap endedRun ! 0) = 7"
  "pending endedRun = [\<lparr> delay = 3500, captured = 0, t_wave = 2 \<rparr>,
                       \<lparr> delay = 4000, captured = 0, t_wave = 2 \<rparr>]"
  by (simp_all add: endedRun_def)

lemma restart_endedRun:
  "handleKeyDown ''Space'' endedRun =
     endedRun\<lparr> heap := heap endedRun @ [initGame 800 600], current := 1 \<rparr>"
  by (simp add: handleKeyDown_def Let_def endedRun_def)

text \<open>
  C9 says that every deferred spawn event that fires after the game-over flag is set is
  discarded: no enemy is added, the spawn progress does not advance, and the state of
  the finished run is not touched. The code does not do this once the player has
  restarted. In \<open>endedRun\<close> the flag is set and two callbacks of the run are pending.
  Fired at once, the first one is dropped. But after the key \<open>Space\<close> (which is also
  the fire key) has replaced the current object by a fresh one, the same callback
  passes the guard, because the guard reads the fresh object: it adds an enemy to the
  new run, and through the object it captured it raises \<open>waveProgress\<close> of the finished
  run from 7 to 8, while the new run's own progress stays 0.
\<close>

theorem stale_spawn_after_restart:
  "gameOver (heap endedRun ! current endedRun)
   \<and> fire 0 endedRun = endedRun\<lparr> pending := [\<lparr> delay = 4000, captured = 0, t_wave = 2 \<rparr>] \<rparr>
   \<and> current (handleKeyDown ''Space'' endedRun) = 1
   \<and> heap (handleKeyDown ''Space'' endedRun) = heap endedRun @ [initGame 800 600]
   \<and> pending (handleKeyDown ''Space'' endedRun) = pending endedRun
   \<and> gameOver (heap (fire 0 (handleKeyDown ''Space'' endedRun)) ! 0)
   \<and> waveProgress (heap endedRun ! 0) = 7
   \<and> waveProgress (heap (fire 0 (handleKeyDown ''Space'' endedRun)) ! 0) = 8
   \<and> enemies (heap (handleKeyDown ''Space'' endedRun) ! 1) = []
   \<and> length (enemies (heap (fire 0 (handleKeyDown ''Space'' endedRun)) ! 1)) = 1
   \<and> waveProgress (heap (fire 0 (handleKeyDown ''Space'' endedRun)) ! 1) = 0"
proof -
  let ?r = "endedRun\<lparr> heap := heap endedRun @ [initGame 800 600], current := 1 \<rparr>"
  let ?q = "?r\<lparr> pending := [\<lparr> delay = 4000, captured = 0, t_wave = 2 \<rparr>] \<rparr>"
  have f0: "fire 0 endedRun = endedRun\<lparr> pending := [\<lparr> delay = 4000, captured = 0, t_wave = 2 \<rparr>] \<rparr>"
    using spawn_dropped_while_over(2)[of endedRun 0] by (simp add: endedRun_fields)
  have q: "heap ?q = heap endedRun @ [initGame 800 600]" "current ?q = 1"
    "heap ?q ! 1 = initGame 800 600" "\<not> gameOver (heap ?q ! current ?q)"
    by (simp_all add: endedRun_fields nth_append initGame_def)
  have f: "fire 0 ?r = spawnTimeout \<lparr> delay = 3500, captured = 0, t_wave = 2 \<rparr> ?q"
    by (simp add: fire_def endedRun_fields)
  have h: "heap (spawnTimeout \<lparr> delay = 3500, captured = 0, t_wave = 2 \<rparr> ?q) =
      [(heap endedRun ! 0)\<lparr> waveProgress := 8 \<rparr>,
       GameState.truncate (spawnEnemy Basic 2 ((enter ?q)\<lparr> draws := Suc (draws (enter ?q)) \<rparr>))]"
    using q(4) by (simp add: spawnTimeout_def Let_def leave_def endedRun_def)
  show ?thesis
    unfolding restart_endedRun f h f0
    by (simp add: endedRun_fields initGame_def nth_append)
qed

end
